theory Spec2Isabelle
  imports Main "HOL-Library.Sublist"
begin

chapter \<open>The program\<close>

section \<open>JavaScript strings\<close>

text \<open>
  A JavaScript string is a sequence of UTF-16 code units. This development covers the
  strings whose code units lie in the range 0x00..0xFF and represents such a code unit by
  HOL's eight-bit \<open>char\<close>, so a string literal reads as in the source. On this range every
  code unit is a code point of its own: the string iterator behind \<open>for (const char of value)\<close>
  and \<open>new Set(value)\<close> visits the code units one by one, \<open>value.length\<close> is the length of
  the list, and \<open>toLowerCase\<close> maps one code unit to one code unit of the same range.
\<close>

definition is_space :: "char \<Rightarrow> bool" where
  \<comment> \<open>The class \<open>\s\<close> of a regular expression, which is also what \<open>trim\<close> strips and what
      \<open>parseInt\<close> and \<open>ToNumber\<close> skip: TAB, LF, VT, FF, CR, SPACE and NO-BREAK SPACE (the
      other members of the class lie above 0xFF).\<close>
  "is_space c = (of_char c \<in> {9, 10, 11, 12, 13, 32, 160 :: nat})"

definition is_digit :: "char \<Rightarrow> bool" where
  \<comment> \<open>The class \<open>\d\<close>: 0-9.\<close>
  "is_digit c = (48 \<le> (of_char c :: nat) \<and> (of_char c :: nat) \<le> 57)"

definition is_upper :: "char \<Rightarrow> bool" where
  \<comment> \<open>The code units below 0x100 that \<open>toLowerCase\<close> changes: A-Z, and U+00C0..U+00DE
      without the multiplication sign U+00D7.\<close>
  "is_upper c = (let n = (of_char c :: nat) in
     (65 \<le> n \<and> n \<le> 90) \<or> (192 \<le> n \<and> n \<le> 222 \<and> n \<noteq> 215))"

definition is_word_char :: "char \<Rightarrow> bool" where
  \<comment> \<open>The class \<open>\w\<close> (no \<open>i\<close> or \<open>u\<close> flag): A-Z, a-z, 0-9 and the underscore.\<close>
  "is_word_char c = (let n = (of_char c :: nat) in
     (65 \<le> n \<and> n \<le> 90) \<or> (97 \<le> n \<and> n \<le> 122) \<or> (48 \<le> n \<and> n \<le> 57) \<or> n = 95)"

definition lower_char :: "char \<Rightarrow> char" where
  "lower_char c = (if is_upper c then char_of ((of_char c :: nat) + 32) else c)"

definition toLowerCase :: "string \<Rightarrow> string" where
  "toLowerCase s = map lower_char s"

definition trimStart :: "string \<Rightarrow> string" where
  "trimStart s = dropWhile is_space s"

definition trim :: "string \<Rightarrow> string" where
  "trim s = rev (dropWhile is_space (rev (dropWhile is_space s)))"

definition remove_spaces :: "string \<Rightarrow> string" where
  \<comment> \<open>\<open>s.replace(/\s/g, "")\<close>\<close>
  "remove_spaces s = filter (\<lambda>c. \<not> is_space c) s"

function split_spaces :: "string \<Rightarrow> string list" where
  \<comment> \<open>\<open>s.split(/\s+/)\<close>: the pieces between the maximal runs of white space; a run at the
      start or at the end leaves an empty piece there, and the empty string gives one
      empty piece.\<close>
  "split_spaces [] = [[]]"
| "split_spaces (c # cs) =
     (if is_space c then [] # split_spaces (dropWhile is_space cs)
      else (case split_spaces cs of
              [] \<Rightarrow> [[c]]
            | piece # pieces \<Rightarrow> (c # piece) # pieces))"
  by pat_completeness auto
termination
  by (relation "measure length") (auto simp: length_dropWhile_le less_Suc_eq_le)

fun includes_str :: "string \<Rightarrow> string \<Rightarrow> bool" where
  \<comment> \<open>\<open>s.includes(sub)\<close>: \<open>sub\<close> occurs in \<open>s\<close> as a run of consecutive code units.\<close>
  "includes_str [] sub = (sub = [])"
| "includes_str (c # cs) sub = (prefix sub (c # cs) \<or> includes_str cs sub)"

section \<open>Map, Set and plain objects\<close>

text \<open>
  A \<open>Map\<close> keeps its entries in insertion order, one per key; \<open>set\<close> on a key that is
  present replaces the value where it stands.
\<close>

type_synonym ('k, 'v) js_map = "('k \<times> 'v) list"

definition map_has :: "('k, 'v) js_map \<Rightarrow> 'k \<Rightarrow> bool" where
  "map_has m k = (k \<in> fst ` set m)"

definition map_get :: "('k, 'v) js_map \<Rightarrow> 'k \<Rightarrow> 'v option" where
  "map_get m k = map_of m k"

fun map_set :: "('k, 'v) js_map \<Rightarrow> 'k \<Rightarrow> 'v \<Rightarrow> ('k, 'v) js_map" where
  "map_set [] k v = [(k, v)]"
| "map_set ((k', v') # m) k v = (if k' = k then (k, v) # m else (k', v') # map_set m k v)"

definition map_delete :: "('k, 'v) js_map \<Rightarrow> 'k \<Rightarrow> ('k, 'v) js_map" where
  "map_delete m k = filter (\<lambda>e. fst e \<noteq> k) m"

definition map_values :: "('k, 'v) js_map \<Rightarrow> 'v list" where
  \<comment> \<open>\<open>Array.from(m.values())\<close>\<close>
  "map_values m = map snd m"

text \<open>\<open>new Set(iterable)\<close> adds the elements in order; an element already present is skipped.\<close>

definition set_add :: "'a list \<Rightarrow> 'a \<Rightarrow> 'a list" where
  "set_add s x = (if x \<in> set s then s else s @ [x])"

definition new_Set :: "'a list \<Rightarrow> 'a list" where
  "new_Set xs = foldl set_add [] xs"

text \<open>
  The frequency table is a plain object whose property names are single characters. An
  object lists its integer-like names first, in ascending order, and the other names in
  the order of their creation; among one-character names the integer-like ones are the
  digits. No one-character name is inherited from \<open>Object.prototype\<close>, so reading a name
  that was never assigned gives \<open>undefined\<close>.
\<close>

type_synonym js_object = "(char \<times> nat) list"

fun insert_property :: "char \<Rightarrow> nat \<Rightarrow> js_object \<Rightarrow> js_object" where
  "insert_property k v [] = [(k, v)]"
| "insert_property k v ((k', v') # ps) =
     (if is_digit k \<and> (\<not> is_digit k' \<or> (of_char k :: nat) < of_char k')
      then (k, v) # (k', v') # ps
      else (k', v') # insert_property k v ps)"

fun replace_property :: "char \<Rightarrow> nat \<Rightarrow> js_object \<Rightarrow> js_object" where
  "replace_property k v [] = []"
| "replace_property k v ((k', v') # ps) =
     (if k' = k then (k, v) # ps else (k', v') # replace_property k v ps)"

definition assign_property :: "js_object \<Rightarrow> char \<Rightarrow> nat \<Rightarrow> js_object" where
  \<comment> \<open>\<open>obj[k] = v\<close>\<close>
  "assign_property obj k v =
     (if k \<in> fst ` set obj then replace_property k v obj else insert_property k v obj)"

definition read_or_zero :: "js_object \<Rightarrow> char \<Rightarrow> nat" where
  \<comment> \<open>\<open>obj[k] || 0\<close>: \<open>undefined\<close> and \<open>0\<close> both give \<open>0\<close>.\<close>
  "read_or_zero obj k = (case map_of obj k of None \<Rightarrow> 0 | Some n \<Rightarrow> n)"

section \<open>The analysed record\<close>

record properties =
  length_field :: nat
  is_palindrome :: bool
  unique_characters :: nat
  word_count :: nat
  sha256_hash :: string
  character_frequency_map :: js_object

text \<open>The second variant of the analyser stores the time stamp among the properties.\<close>

record properties_v2 = properties +
  created_at_v2 :: string

record 'p item =
  id_field :: string
  value_field :: string
  properties :: 'p

record analyzed_string = "properties item" +
  created_at :: string

type_synonym analyzed_string_v2 = "properties_v2 item"

section \<open>generateHash and analyzeString\<close>

text \<open>
  \<open>crypto.createHash("sha256").update(value).digest("hex")\<close> is the platform's SHA-256; it
  is a parameter \<open>sha256\<close> of everything that hashes. The clock read by
  \<open>new Date().toISOString()\<close> is the parameter \<open>now\<close>.
\<close>

definition generateHash :: "(string \<Rightarrow> string) \<Rightarrow> string \<Rightarrow> string" where
  "generateHash sha256 v = sha256 v"

definition isPalindrome :: "string \<Rightarrow> bool" where
  "isPalindrome v = (let normalized = remove_spaces (toLowerCase v) in normalized = rev normalized)"

definition wordCount :: "string \<Rightarrow> nat" where
  \<comment> \<open>\<open>value.trim().split(/\s+/).filter(Boolean).length\<close>; the second variant filters with
      \<open>word.length > 0\<close>, which keeps the same pieces.\<close>
  "wordCount v = length (filter (\<lambda>w. w \<noteq> []) (split_spaces (trim v)))"

definition uniqueChars :: "string \<Rightarrow> nat" where
  "uniqueChars v = length (new_Set v)"

definition count_char :: "js_object \<Rightarrow> char \<Rightarrow> js_object" where
  \<comment> \<open>The loop body: \<open>charFrequency[char] = (charFrequency[char] || 0) + 1\<close>\<close>
  "count_char obj c = assign_property obj c (read_or_zero obj c + 1)"

definition charFrequency :: "string \<Rightarrow> js_object" where
  "charFrequency v = foldl count_char [] v"

definition analyzeString :: "(string \<Rightarrow> string) \<Rightarrow> string \<Rightarrow> string \<Rightarrow> analyzed_string" where
  "analyzeString sha256 now v =
     \<lparr> id_field = generateHash sha256 v,
       value_field = v,
       properties = \<lparr> length_field = length v,
                      is_palindrome = isPalindrome v,
                      unique_characters = uniqueChars v,
                      word_count = wordCount v,
                      sha256_hash = generateHash sha256 v,
                      character_frequency_map = charFrequency v \<rparr>,
       created_at = now \<rparr>"

definition analyzeString_v2 :: "(string \<Rightarrow> string) \<Rightarrow> string \<Rightarrow> string \<Rightarrow> analyzed_string_v2" where
  "analyzeString_v2 sha256 now v =
     \<lparr> id_field = generateHash sha256 v,
       value_field = v,
       properties = \<lparr> length_field = length v,
                      is_palindrome = isPalindrome v,
                      unique_characters = uniqueChars v,
                      word_count = wordCount v,
                      sha256_hash = generateHash sha256 v,
                      character_frequency_map = charFrequency v,
                      created_at_v2 = now \<rparr> \<rparr>"

section \<open>JavaScript numbers\<close>

text \<open>
  A JavaScript number is an IEEE 754 double. The numbers that arise here are \<open>NaN\<close>, the
  two infinities and doubles whose value is an integer (\<open>-0\<close> is identified with \<open>0\<close>: the
  two are equal under every comparison made below). An integer is a double if 53 binary
  digits are enough to write it, up to a power of two; any other integer is rounded to the
  nearest double, a tie going to the one with the even significand, and to an infinity
  from \<open>2^1024 - 2^970\<close> on.
\<close>

datatype number = NaN | Finite int | PosInfinity | NegInfinity

function bit_length :: "int \<Rightarrow> nat" where
  "bit_length n = (if n \<le> 0 then 0 else Suc (bit_length (n div 2)))"
  by pat_completeness auto
termination
  by (relation "measure nat") auto

declare bit_length.simps [simp del]

definition round_to_double :: "int \<Rightarrow> int" where
  \<comment> \<open>for a magnitude \<open>n \<ge> 0\<close>\<close>
  "round_to_double n =
     (if n < 2 ^ 53 then n
      else (let e = bit_length n - 53;
                q = n div 2 ^ e;
                r = n mod 2 ^ e;
                half = 2 ^ (e - 1)
            in if half < r \<or> (r = half \<and> odd q) then (q + 1) * 2 ^ e else q * 2 ^ e))"

definition to_number :: "int \<Rightarrow> number" where
  \<comment> \<open>The number for a mathematical integer.\<close>
  "to_number z =
     (let m = round_to_double \<bar>z\<bar>
      in if 2 ^ 1024 \<le> m then (if z < 0 then NegInfinity else PosInfinity)
         else Finite (if z < 0 then - m else m))"

definition add_one :: "number \<Rightarrow> number" where
  \<comment> \<open>\<open>x + 1\<close>\<close>
  "add_one x = (case x of Finite n \<Rightarrow> to_number (n + 1) | _ \<Rightarrow> x)"

definition isNaN :: "number \<Rightarrow> bool" where
  "isNaN x = (x = NaN)"

fun num_lt :: "number \<Rightarrow> number \<Rightarrow> bool" where
  \<comment> \<open>\<open>a < b\<close>; \<open>a > b\<close> is \<open>num_lt b a\<close>\<close>
  "num_lt NaN b = False"
| "num_lt a NaN = False"
| "num_lt (Finite a) (Finite b) = (a < b)"
| "num_lt (Finite a) PosInfinity = True"
| "num_lt (Finite a) NegInfinity = False"
| "num_lt PosInfinity b = False"
| "num_lt NegInfinity NegInfinity = False"
| "num_lt NegInfinity b = True"

definition num_eq :: "number \<Rightarrow> number \<Rightarrow> bool" where
  \<comment> \<open>\<open>a === b\<close> on numbers\<close>
  "num_eq a b = (a = b \<and> a \<noteq> NaN)"

definition num_le :: "number \<Rightarrow> number \<Rightarrow> bool" where
  \<comment> \<open>\<open>a <= b\<close>; \<open>a >= b\<close> is \<open>num_le b a\<close>\<close>
  "num_le a b = (num_lt a b \<or> num_eq a b)"

definition digit_in_radix :: "nat \<Rightarrow> char \<Rightarrow> nat option" where
  "digit_in_radix R c =
     (let n = (of_char c :: nat);
          d = (if 48 \<le> n \<and> n \<le> 57 then Some (n - 48)
               else if 97 \<le> n \<and> n \<le> 122 then Some (n - 87)
               else if 65 \<le> n \<and> n \<le> 90 then Some (n - 55)
               else None)
      in case d of None \<Rightarrow> None | Some k \<Rightarrow> if k < R then Some k else None)"

definition value_in_radix :: "nat \<Rightarrow> string \<Rightarrow> int" where
  "value_in_radix R z =
     foldl (\<lambda>n c. int R * n + (case digit_in_radix R c of None \<Rightarrow> 0 | Some k \<Rightarrow> int k)) 0 z"

definition parseInt :: "string \<Rightarrow> nat \<Rightarrow> number" where
  \<comment> \<open>\<open>parseInt(s, radix)\<close>; radix \<open>0\<close> stands for an omitted radix. Leading white space is
      skipped, a sign is read, a \<open>0x\<close> prefix selects radix 16 when the radix is omitted or
      16, and the longest run of digits of the radix is the value; no digit gives \<open>NaN\<close>.
      The value is taken exactly, as V8 does; the standard lets an implementation replace
      the decimal digits after the twentieth significant one by zeros.\<close>
  "parseInt s radix =
     (let t = trimStart s;
          negative = (t \<noteq> [] \<and> hd t = CHR ''-'');
          u = (if t \<noteq> [] \<and> (hd t = CHR ''+'' \<or> hd t = CHR ''-'') then tl t else t);
          hex = ((radix = 0 \<or> radix = 16) \<and> (prefix ''0x'' u \<or> prefix ''0X'' u));
          R = (if radix = 0 then (if hex then 16 else 10) else radix);
          w = (if hex then drop 2 u else u);
          z = takeWhile (\<lambda>c. digit_in_radix R c \<noteq> None) w
      in if radix \<noteq> 0 \<and> (radix < 2 \<or> 36 < radix) then NaN
         else if z = [] then NaN
         else to_number ((if negative then - 1 else 1) * value_in_radix R z))"

text \<open>
  \<open>errors > 0\<close> with an array on the left converts the array to a string, its elements
  joined by commas, and the string to a number. \<open>string_gt_zero s\<close> says whether that
  number is greater than zero: the string, trimmed, must be a numeric literal (\<open>Infinity\<close>,
  decimal digits with an optional fraction and exponent, or a binary, octal or hexadecimal
  integer) that carries no minus sign and whose value does not round to zero, that is,
  lies above \<open>2^-1075\<close>.
\<close>

fun join_comma :: "string list \<Rightarrow> string" where
  "join_comma [] = []"
| "join_comma [x] = x"
| "join_comma (x # y # xs) = x @ CHR '','' # join_comma (y # xs)"

definition radix_literal_positive :: "nat \<Rightarrow> string \<Rightarrow> bool" where
  "radix_literal_positive R ds =
     (ds \<noteq> [] \<and> list_all (\<lambda>c. digit_in_radix R c \<noteq> None) ds
      \<and> list_ex (\<lambda>c. digit_in_radix R c \<noteq> Some 0) ds)"

definition exponent_part :: "string \<Rightarrow> bool \<times> int" where
  "exponent_part r =
     (if r = [] then (True, 0)
      else if hd r = CHR ''e'' \<or> hd r = CHR ''E'' then
        (let r' = tl r;
             negative = (r' \<noteq> [] \<and> hd r' = CHR ''-'');
             ds = (if r' \<noteq> [] \<and> (hd r' = CHR ''+'' \<or> hd r' = CHR ''-'') then tl r' else r')
         in (ds \<noteq> [] \<and> list_all is_digit ds,
             (if negative then - 1 else 1) * value_in_radix 10 ds))
      else (False, 0))"

definition decimal_literal_positive :: "string \<Rightarrow> bool" where
  "decimal_literal_positive t =
     (let u = (if t \<noteq> [] \<and> hd t = CHR ''+'' then tl t else t);
          ip = takeWhile is_digit u;
          r1 = dropWhile is_digit u;
          dot = (r1 \<noteq> [] \<and> hd r1 = CHR ''.'');
          fp = (if dot then takeWhile is_digit (tl r1) else []);
          r2 = (if dot then dropWhile is_digit (tl r1) else r1);
          m = value_in_radix 10 (ip @ fp);
          k = snd (exponent_part r2) - int (length fp)
      in if t \<noteq> [] \<and> hd t = CHR ''-'' then False
         else if u = ''Infinity'' then True
         else (ip \<noteq> [] \<or> fp \<noteq> []) \<and> fst (exponent_part r2) \<and> m \<noteq> 0
              \<and> (0 \<le> k \<or> 10 ^ nat (- k) < m * 2 ^ 1075))"

definition string_gt_zero :: "string \<Rightarrow> bool" where
  "string_gt_zero s =
     (let t = trim s
      in if prefix ''0x'' t \<or> prefix ''0X'' t then radix_literal_positive 16 (drop 2 t)
         else if prefix ''0o'' t \<or> prefix ''0O'' t then radix_literal_positive 8 (drop 2 t)
         else if prefix ''0b'' t \<or> prefix ''0B'' t then radix_literal_positive 2 (drop 2 t)
         else decimal_literal_positive t)"

definition array_gt_zero :: "string list \<Rightarrow> bool" where
  "array_gt_zero errors = string_gt_zero (join_comma errors)"

section \<open>Filter sets\<close>

text \<open>
  \<open>filters\<close> starts as the empty object \<open>{}\<close>; a filter that was never assigned reads as
  \<open>undefined\<close>, here \<open>None\<close>.
\<close>

record filter_set =
  is_palindrome_filter :: "bool option"
  min_length :: "number option"
  max_length :: "number option"
  word_count_filter :: "number option"
  contains_character :: "string option"

definition no_filters :: filter_set where
  "no_filters = \<lparr> is_palindrome_filter = None, min_length = None, max_length = None,
                   word_count_filter = None, contains_character = None \<rparr>"

definition filter_keys :: "filter_set \<Rightarrow> nat" where
  \<comment> \<open>\<open>Object.keys(filters).length\<close>\<close>
  "filter_keys f =
     (if is_palindrome_filter f = None then 0 else 1) + (if min_length f = None then 0 else 1)
     + (if max_length f = None then 0 else 1) + (if word_count_filter f = None then 0 else 1)
     + (if contains_character f = None then 0 else 1)"

section \<open>interpretQuery\<close>

text \<open>
  \<open>s.match(/literal (group)/)\<close> tries the positions of \<open>s\<close> from the left and returns the
  group of the first position where the literal text and then the group match.
\<close>

fun regex_search :: "string \<Rightarrow> (string \<Rightarrow> string option) \<Rightarrow> string \<Rightarrow> string option" where
  "regex_search lit grp [] = None"
| "regex_search lit grp (c # cs) =
     (if prefix lit (c # cs) then
        (case grp (drop (length lit) (c # cs)) of
           Some g \<Rightarrow> Some g
         | None \<Rightarrow> regex_search lit grp cs)
      else regex_search lit grp cs)"

definition digits_group :: "string \<Rightarrow> string option" where
  \<comment> \<open>\<open>(\d+)\<close>: the longest run of digits, at least one\<close>
  "digits_group rest = (let ds = takeWhile is_digit rest in if ds = [] then None else Some ds)"

definition word_char_group :: "string \<Rightarrow> string option" where
  \<comment> \<open>\<open>(\w)\<close>\<close>
  "word_char_group rest =
     (case rest of [] \<Rightarrow> None | c # cs \<Rightarrow> if is_word_char c then Some [c] else None)"

definition interpretQuery :: "string \<Rightarrow> filter_set option" where
  "interpretQuery query =
     (let lower = toLowerCase query;
          filters = no_filters;
          filters = (if includes_str lower ''palindromic''
                     then filters\<lparr>is_palindrome_filter := Some True\<rparr> else filters);
          filters = (if includes_str lower ''single word'' \<or> includes_str lower ''one word''
                     then filters\<lparr>word_count_filter := Some (Finite 1)\<rparr> else filters);
          matchLength = regex_search ''longer than '' digits_group lower;
          filters = (case matchLength of
                       Some g \<Rightarrow> filters\<lparr>min_length := Some (add_one (parseInt g 0))\<rparr>
                     | None \<Rightarrow> filters);
          matchContains = regex_search ''containing the letter '' word_char_group lower;
          filters = (case matchContains of
                       Some g \<Rightarrow> filters\<lparr>contains_character := Some g\<rparr>
                     | None \<Rightarrow> filters)
      in if filter_keys filters \<noteq> 0 then Some filters else None)"

section \<open>Filtering\<close>

text \<open>
  The filters read only \<open>item.value\<close> and \<open>item.properties\<close>, so they are stated for every
  record with these fields; both variants of the analysed record are instances.
\<close>

definition length_number :: "('a properties_scheme, 'b) item_scheme \<Rightarrow> number" where
  "length_number r = Finite (int (length_field (properties r)))"

definition word_count_number :: "('a properties_scheme, 'b) item_scheme \<Rightarrow> number" where
  "word_count_number r = Finite (int (word_count (properties r)))"

definition filter_is_palindrome ::
  "filter_set \<Rightarrow> ('a properties_scheme, 'b) item_scheme list \<Rightarrow> ('a properties_scheme, 'b) item_scheme list" where
  "filter_is_palindrome f results =
     (case is_palindrome_filter f of
        None \<Rightarrow> results
      | Some b \<Rightarrow> filter (\<lambda>r. is_palindrome (properties r) = b) results)"

definition filter_min_length ::
  "filter_set \<Rightarrow> ('a properties_scheme, 'b) item_scheme list \<Rightarrow> ('a properties_scheme, 'b) item_scheme list" where
  "filter_min_length f results =
     (case min_length f of
        None \<Rightarrow> results
      | Some m \<Rightarrow> filter (\<lambda>r. num_le m (length_number r)) results)"

definition filter_max_length ::
  "filter_set \<Rightarrow> ('a properties_scheme, 'b) item_scheme list \<Rightarrow> ('a properties_scheme, 'b) item_scheme list" where
  "filter_max_length f results =
     (case max_length f of
        None \<Rightarrow> results
      | Some m \<Rightarrow> filter (\<lambda>r. num_le (length_number r) m) results)"

definition filter_word_count ::
  "filter_set \<Rightarrow> ('a properties_scheme, 'b) item_scheme list \<Rightarrow> ('a properties_scheme, 'b) item_scheme list" where
  "filter_word_count f results =
     (case word_count_filter f of
        None \<Rightarrow> results
      | Some n \<Rightarrow> filter (\<lambda>r. num_eq (word_count_number r) n) results)"

definition filter_contains_character ::
  "filter_set \<Rightarrow> ('a properties_scheme, 'b) item_scheme list \<Rightarrow> ('a properties_scheme, 'b) item_scheme list" where
  "filter_contains_character f results =
     (case contains_character f of
        None \<Rightarrow> results
      | Some s \<Rightarrow> filter (\<lambda>r. includes_str (value_field r) s) results)"

definition apply_filters ::
  "filter_set \<Rightarrow> ('a properties_scheme, 'b) item_scheme list \<Rightarrow> ('a properties_scheme, 'b) item_scheme list" where
  \<comment> \<open>\<open>GET /strings\<close>, after validation: palindrome, minimum, maximum, word count, character\<close>
  "apply_filters f results =
     filter_contains_character f
       (filter_word_count f
         (filter_max_length f
           (filter_min_length f
             (filter_is_palindrome f results))))"

definition apply_parsed_filters ::
  "filter_set \<Rightarrow> ('a properties_scheme, 'b) item_scheme list \<Rightarrow> ('a properties_scheme, 'b) item_scheme list" where
  \<comment> \<open>\<open>GET /strings/filter-by-natural-language\<close>: palindrome, word count, minimum, character\<close>
  "apply_parsed_filters f results =
     filter_contains_character f
       (filter_min_length f
         (filter_word_count f
           (filter_is_palindrome f results)))"

section \<open>Requests and responses\<close>

text \<open>
  A response is the status code and the JSON body that the handler sends. The value of a
  request body is a string, is missing, or is some other JSON value; a query parameter is
  a string or is missing.
\<close>

datatype body_value = Undefined | String string | NotAString

datatype 'r body =
    ErrorBody string
  | ErrorMessageBody string string
  | ErrorExistingBody string string 'r
  | ErrorDetailsBody string "string list"
  | ErrorMessageDetailsBody string string "string list"
  | ItemBody 'r
  | ListBody "'r list" nat filter_set
  | InterpretedBody "'r list" nat string filter_set
  | MessageBody string
  | NoBody

type_synonym 'r response = "nat \<times> 'r body"

type_synonym 'r store = "(string, 'r) js_map"

section \<open>The store: POST, GET one, DELETE\<close>

definition post_strings ::
  "(string \<Rightarrow> string) \<Rightarrow> string \<Rightarrow> analyzed_string store \<Rightarrow> body_value
     \<Rightarrow> analyzed_string response \<times> analyzed_string store" where
  \<open>post_strings sha256 now analyzedStrings val =
     (case val of
        Undefined \<Rightarrow> ((400, ErrorBody (''Missing '' @ [CHR 0x27] @ ''value'' @ [CHR 0x27] @ '' field'')),
                      analyzedStrings)
      | NotAString \<Rightarrow> ((422, ErrorBody ''Value must be a string''), analyzedStrings)
      | String v \<Rightarrow>
          (let hash = generateHash sha256 v
           in if map_has analyzedStrings hash
              then ((409, ErrorMessageBody ''Duplicate string'' ''This string already exists''),
                    analyzedStrings)
              else (let result = analyzeString sha256 now v
                    in ((201, ItemBody result), map_set analyzedStrings hash result))))\<close>

definition json_of_lookup :: "'r option \<Rightarrow> 'r body" where
  \<comment> \<open>\<open>res.json(m.get(k))\<close>\<close>
  "json_of_lookup x = (case x of None \<Rightarrow> NoBody | Some r \<Rightarrow> ItemBody r)"

definition post_strings_v2 ::
  "(string \<Rightarrow> string) \<Rightarrow> string \<Rightarrow> analyzed_string_v2 store \<Rightarrow> body_value
     \<Rightarrow> analyzed_string_v2 response \<times> analyzed_string_v2 store" where
  "post_strings_v2 sha256 now analyzedString val =
     (case val of
        Undefined \<Rightarrow> ((404, ErrorBody ''Value field is required''), analyzedString)
      | NotAString \<Rightarrow>
          ((422, ErrorMessageBody ''Unprocessable Content''
                   ''Value must be a string, Kindly insert a string''), analyzedString)
      | String v \<Rightarrow>
          (let hash = generateHash sha256 v
           in if map_has analyzedString hash
              then ((409, (case map_get analyzedString hash of
                             None \<Rightarrow> ErrorMessageBody ''Conflict'' '' String already exists in the system''
                           | Some existing \<Rightarrow>
                               ErrorExistingBody ''Conflict'' '' String already exists in the system''
                                 existing)),
                    analyzedString)
              else (let result = analyzeString_v2 sha256 now v
                    in ((201, ItemBody result), map_set analyzedString hash result))))"

definition get_string ::
  "(string \<Rightarrow> string) \<Rightarrow> 'r store \<Rightarrow> string \<Rightarrow> 'r response" where
  \<comment> \<open>\<open>GET /strings/:string_value\<close>\<close>
  "get_string sha256 analyzedStrings string_value =
     (let hash = generateHash sha256 string_value
      in if \<not> map_has analyzedStrings hash
         then (404, ErrorMessageBody ''Not Found'' ''String does not exist in the system'')
         else (200, json_of_lookup (map_get analyzedStrings hash)))"

definition delete_string ::
  "(string \<Rightarrow> string) \<Rightarrow> 'r store \<Rightarrow> string \<Rightarrow> 'r response \<times> 'r store" where
  \<comment> \<open>\<open>DELETE /strings/:string_value\<close>\<close>
  "delete_string sha256 analyzedStrings string_value =
     (let hash = generateHash sha256 string_value
      in if \<not> map_has analyzedStrings hash
         then ((404, ErrorMessageBody ''Not Found'' ''String does not exist in the system''),
               analyzedStrings)
         else ((204, NoBody), map_delete analyzedStrings hash))"

definition delete_string_v2 ::
  "(string \<Rightarrow> string) \<Rightarrow> 'r store \<Rightarrow> string \<Rightarrow> 'r response \<times> 'r store" where
  \<comment> \<open>second variant: the same change of the store, with a message in the 204 response\<close>
  "delete_string_v2 sha256 analyzedString string_value =
     (let hash = generateHash sha256 string_value
      in if map_has analyzedString hash
         then ((204, MessageBody ''String has been deleted from memory''),
               map_delete analyzedString hash)
         else ((404, ErrorMessageBody ''Not Found'' ''String does not exist in the system''),
               analyzedString))"

section \<open>GET /strings/filter-by-natural-language\<close>

definition get_filter_by_natural_language ::
  "('a properties_scheme, 'b) item_scheme store \<Rightarrow> string option
     \<Rightarrow> ('a properties_scheme, 'b) item_scheme response" where
  "get_filter_by_natural_language analyzedStrings query =
     (case query of
        None \<Rightarrow> (400, ErrorBody ''Query is required'')
      | Some q \<Rightarrow>
          if q = [] then (400, ErrorBody ''Query is required'')
          else (case interpretQuery q of
                  None \<Rightarrow> (400, ErrorBody ''Unable to parse natural language query'')
                | Some parsedFilters \<Rightarrow>
                    (let results = apply_parsed_filters parsedFilters (map_values analyzedStrings)
                     in (200, InterpretedBody results (length results) q parsedFilters))))"

section \<open>GET /strings: validation and filtering\<close>

record raw_query =
  is_palindrome_param :: "string option"
  min_length_param :: "string option"
  max_length_param :: "string option"
  word_count_param :: "string option"
  contains_character_param :: "string option"

text \<open>The two variants validate alike and differ in the messages they push.\<close>

record messages =
  palindrome_message :: string
  min_length_message :: string
  max_length_message :: string
  word_count_message :: string
  contains_character_message :: string
  conflict_message :: string

definition messages_v1 :: messages where
  \<open>messages_v1 =
     \<lparr> palindrome_message = ''is_palindrome must be "true" or "false"'',
       min_length_message = ''min_length must be a non-negative integer'',
       max_length_message = ''max_length must be a non-negative integer'',
       word_count_message = ''word_count must be a non-negative integer'',
       contains_character_message = ''contains_character must be a single character'',
       conflict_message = ''min_length cannot be greater than max_length'' \<rparr>\<close>

definition messages_v2 :: messages where
  "messages_v2 =
     \<lparr> palindrome_message = ''is_palindrome must be true or false'',
       min_length_message = ''Minlength must not be a negative number'',
       max_length_message = ''Maxlength must not be a negative number'',
       word_count_message = ''Wordcount must not be a negative number'',
       contains_character_message = ''contains_character must be a single character'',
       conflict_message = ''min_length cannot be greater than max_length'' \<rparr>"

type_synonym validation = "filter_set \<times> string list"

definition validate_is_palindrome :: "messages \<Rightarrow> raw_query \<Rightarrow> validation \<Rightarrow> validation" where
  "validate_is_palindrome msg q st =
     (case st of (filters, errors) \<Rightarrow>
        (case is_palindrome_param q of
           None \<Rightarrow> (filters, errors)
         | Some p \<Rightarrow>
             if p \<noteq> ''true'' \<and> p \<noteq> ''false''
             then (filters, errors @ [palindrome_message msg])
             else (filters\<lparr>is_palindrome_filter := Some (p = ''true'')\<rparr>, errors)))"

definition validate_min_length :: "messages \<Rightarrow> raw_query \<Rightarrow> validation \<Rightarrow> validation" where
  "validate_min_length msg q st =
     (case st of (filters, errors) \<Rightarrow>
        (case min_length_param q of
           None \<Rightarrow> (filters, errors)
         | Some p \<Rightarrow>
             (let m = parseInt p 10
              in if isNaN m \<or> num_lt m (Finite 0)
                 then (filters, errors @ [min_length_message msg])
                 else (filters\<lparr>min_length := Some m\<rparr>, errors))))"

definition validate_max_length :: "messages \<Rightarrow> raw_query \<Rightarrow> validation \<Rightarrow> validation" where
  "validate_max_length msg q st =
     (case st of (filters, errors) \<Rightarrow>
        (case max_length_param q of
           None \<Rightarrow> (filters, errors)
         | Some p \<Rightarrow>
             (let m = parseInt p 10
              in if isNaN m \<or> num_lt m (Finite 0)
                 then (filters, errors @ [max_length_message msg])
                 else (filters\<lparr>max_length := Some m\<rparr>, errors))))"

definition validate_word_count :: "messages \<Rightarrow> raw_query \<Rightarrow> validation \<Rightarrow> validation" where
  "validate_word_count msg q st =
     (case st of (filters, errors) \<Rightarrow>
        (case word_count_param q of
           None \<Rightarrow> (filters, errors)
         | Some p \<Rightarrow>
             (let wc = parseInt p 10
              in if isNaN wc \<or> num_lt wc (Finite 0)
                 then (filters, errors @ [word_count_message msg])
                 else (filters\<lparr>word_count_filter := Some wc\<rparr>, errors))))"

definition validate_contains_character :: "messages \<Rightarrow> raw_query \<Rightarrow> validation \<Rightarrow> validation" where
  \<comment> \<open>the second variant also tests \<open>typeof contains_character !== "string"\<close>, which is
      false for a parameter that is a string\<close>
  "validate_contains_character msg q st =
     (case st of (filters, errors) \<Rightarrow>
        (case contains_character_param q of
           None \<Rightarrow> (filters, errors)
         | Some p \<Rightarrow>
             if length p \<noteq> 1
             then (filters, errors @ [contains_character_message msg])
             else (filters\<lparr>contains_character := Some p\<rparr>, errors)))"

definition validate_conflict :: "messages \<Rightarrow> validation \<Rightarrow> validation" where
  "validate_conflict msg st =
     (case st of (filters, errors) \<Rightarrow>
        (case (min_length filters, max_length filters) of
           (Some lo, Some hi) \<Rightarrow>
             if num_lt hi lo then (filters, errors @ [conflict_message msg]) else (filters, errors)
         | _ \<Rightarrow> (filters, errors)))"

definition validate :: "messages \<Rightarrow> raw_query \<Rightarrow> validation" where
  "validate msg q =
     validate_conflict msg
       (validate_contains_character msg q
         (validate_word_count msg q
           (validate_max_length msg q
             (validate_min_length msg q
               (validate_is_palindrome msg q (no_filters, []))))))"

definition get_strings ::
  "('a properties_scheme, 'b) item_scheme store \<Rightarrow> raw_query
     \<Rightarrow> ('a properties_scheme, 'b) item_scheme response" where
  \<comment> \<open>first variant: \<open>if (errors.length > 0) return res.status(400).json(...)\<close>\<close>
  "get_strings analyzedStrings q =
     (case validate messages_v1 q of (filters, errors) \<Rightarrow>
        if 0 < length errors then (400, ErrorDetailsBody ''Bad Request'' errors)
        else (let results = apply_filters filters (map_values analyzedStrings)
              in (200, ListBody results (length results) filters)))"

definition get_strings_v2 ::
  "('a properties_scheme, 'b) item_scheme store \<Rightarrow> raw_query
     \<Rightarrow> ('a properties_scheme, 'b) item_scheme response" where
  \<comment> \<open>second variant: \<open>if (errors > 0) { res.status(400).json(...) }\<close>. The branch does not
      return; the response below is the first one the handler sends.\<close>
  "get_strings_v2 analyzedString q =
     (case validate messages_v2 q of (filters, errors) \<Rightarrow>
        if array_gt_zero errors
        then (400, ErrorMessageDetailsBody ''Bad Request'' ''Invalid query parameter values'' errors)
        else (let filteredStrings = apply_filters filters (map_values analyzedString)
              in (200, ListBody filteredStrings (length filteredStrings) filters)))"

chapter \<open>Notions used in the statements\<close>

section \<open>Sequences of requests and the invariant of the store\<close>

text \<open>
  The store changes through \<open>POST /strings\<close> and \<open>DELETE /strings/:string_value\<close> only; the
  three \<open>GET\<close> handlers read it and return a response. A run is a sequence of changing
  requests; \<open>Post now val\<close> is a \<open>POST\<close> arriving at the time \<open>now\<close> with the body value \<open>val\<close>.
\<close>

datatype request = Post string body_value | Delete string

fun handle_request ::
  "(string \<Rightarrow> string) \<Rightarrow> analyzed_string store \<Rightarrow> request \<Rightarrow> analyzed_string store" where
  "handle_request sha256 store (Post now val) = snd (post_strings sha256 now store val)"
| "handle_request sha256 store (Delete v) = snd (delete_string sha256 store v)"

definition run_requests ::
  "(string \<Rightarrow> string) \<Rightarrow> analyzed_string store \<Rightarrow> request list \<Rightarrow> analyzed_string store" where
  "run_requests sha256 store reqs = foldl (handle_request sha256) store reqs"

fun handle_request_v2 ::
  "(string \<Rightarrow> string) \<Rightarrow> analyzed_string_v2 store \<Rightarrow> request \<Rightarrow> analyzed_string_v2 store" where
  "handle_request_v2 sha256 store (Post now val) = snd (post_strings_v2 sha256 now store val)"
| "handle_request_v2 sha256 store (Delete v) = snd (delete_string_v2 sha256 store v)"

definition run_requests_v2 ::
  "(string \<Rightarrow> string) \<Rightarrow> analyzed_string_v2 store \<Rightarrow> request list \<Rightarrow> analyzed_string_v2 store" where
  "run_requests_v2 sha256 store reqs = foldl (handle_request_v2 sha256) store reqs"

definition keyed_by_digest ::
  "(string \<Rightarrow> string) \<Rightarrow> string \<times> ('a properties_scheme, 'b) item_scheme \<Rightarrow> bool" where
  \<comment> \<open>an entry of the store whose key is the digest of the value of its record, and whose
      record carries that digest as \<open>id\<close> and as \<open>sha256_hash\<close>\<close>
  "keyed_by_digest sha256 e =
     (fst e = generateHash sha256 (value_field (snd e))
      \<and> id_field (snd e) = fst e
      \<and> sha256_hash (properties (snd e)) = fst e)"

definition store_invariant ::
  "(string \<Rightarrow> string) \<Rightarrow> ('a properties_scheme, 'b) item_scheme store \<Rightarrow> bool" where
  "store_invariant sha256 store = list_all (keyed_by_digest sha256) store"

section \<open>The FilterSet of the specification\<close>

text \<open>
  The specification describes a FilterSet as a mapping from the filter names to validated
  values: a boolean, non-negative integers and a single character. \<open>js_filters\<close> is the
  object that carries such a FilterSet in the handlers; \<open>satisfies\<close> is the conjunction of
  the filters that are present, as the specification words it.
\<close>

record FilterSet =
  fs_is_palindrome :: "bool option"
  fs_min_length :: "nat option"
  fs_max_length :: "nat option"
  fs_word_count :: "nat option"
  fs_contains_character :: "char option"

definition empty_FilterSet :: FilterSet where
  "empty_FilterSet = \<lparr> fs_is_palindrome = None, fs_min_length = None, fs_max_length = None,
                        fs_word_count = None, fs_contains_character = None \<rparr>"

definition js_filters :: "FilterSet \<Rightarrow> filter_set" where
  "js_filters f =
     \<lparr> is_palindrome_filter = fs_is_palindrome f,
       min_length = map_option (\<lambda>n. Finite (int n)) (fs_min_length f),
       max_length = map_option (\<lambda>n. Finite (int n)) (fs_max_length f),
       word_count_filter = map_option (\<lambda>n. Finite (int n)) (fs_word_count f),
       contains_character = map_option (\<lambda>c. [c]) (fs_contains_character f) \<rparr>"

definition satisfies :: "FilterSet \<Rightarrow> ('a properties_scheme, 'b) item_scheme \<Rightarrow> bool" where
  "satisfies f r =
     ((case fs_is_palindrome f of None \<Rightarrow> True | Some b \<Rightarrow> is_palindrome (properties r) = b)
      \<and> (case fs_min_length f of None \<Rightarrow> True | Some n \<Rightarrow> n \<le> length_field (properties r))
      \<and> (case fs_max_length f of None \<Rightarrow> True | Some n \<Rightarrow> length_field (properties r) \<le> n)
      \<and> (case fs_word_count f of None \<Rightarrow> True | Some n \<Rightarrow> word_count (properties r) = n)
      \<and> (case fs_contains_character f of None \<Rightarrow> True | Some c \<Rightarrow> c \<in> set (value_field r)))"

section \<open>Matches of a pattern\<close>

text \<open>
  The two patterns of \<open>interpretQuery\<close> are a literal text followed by a group that begins
  with a character of a class. \<open>first_match lit cls s pre rest\<close> says that \<open>s\<close> is \<open>pre\<close>, the
  literal text and \<open>rest\<close>, that \<open>rest\<close> begins with a character of the class, and that no
  such occurrence of the literal text begins further to the left.
\<close>

definition starts_with :: "(char \<Rightarrow> bool) \<Rightarrow> string \<Rightarrow> bool" where
  "starts_with cls rest = (case rest of [] \<Rightarrow> False | c # cs \<Rightarrow> cls c)"

definition first_match :: "string \<Rightarrow> (char \<Rightarrow> bool) \<Rightarrow> string \<Rightarrow> string \<Rightarrow> string \<Rightarrow> bool" where
  "first_match lit cls s pre rest =
     (s = pre @ lit @ rest \<and> starts_with cls rest
      \<and> (\<forall>pre' rest'. s = pre' @ lit @ rest' \<and> starts_with cls rest' \<longrightarrow> length pre \<le> length pre'))"

definition has_match :: "string \<Rightarrow> (char \<Rightarrow> bool) \<Rightarrow> string \<Rightarrow> bool" where
  "has_match lit cls s = (\<exists>pre rest. s = pre @ lit @ rest \<and> starts_with cls rest)"

section \<open>The errors of each validation rule\<close>

text \<open>
  The messages that each rule of the validation contributes, taken by itself: one for a
  parameter that is present and not acceptable, none otherwise.
\<close>

definition palindrome_errors :: "messages \<Rightarrow> raw_query \<Rightarrow> string list" where
  "palindrome_errors msg q =
     (case is_palindrome_param q of
        None \<Rightarrow> []
      | Some p \<Rightarrow> if p = ''true'' \<or> p = ''false'' then [] else [palindrome_message msg])"

definition number_errors :: "string \<Rightarrow> string option \<Rightarrow> string list" where
  "number_errors message param =
     (case param of
        None \<Rightarrow> []
      | Some p \<Rightarrow> if isNaN (parseInt p 10) \<or> num_lt (parseInt p 10) (Finite 0) then [message]
                  else [])"

definition character_errors :: "messages \<Rightarrow> raw_query \<Rightarrow> string list" where
  "character_errors msg q =
     (case contains_character_param q of
        None \<Rightarrow> []
      | Some p \<Rightarrow> if length p = 1 then [] else [contains_character_message msg])"

definition conflict_errors :: "messages \<Rightarrow> filter_set \<Rightarrow> string list" where
  "conflict_errors msg filters =
     (case (min_length filters, max_length filters) of
        (Some lo, Some hi) \<Rightarrow> if num_lt hi lo then [conflict_message msg] else []
      | _ \<Rightarrow> [])"

text \<open>The first characters of the six messages that the second variant can push.\<close>

definition starts_a_message :: "char \<Rightarrow> bool" where
  "starts_a_message c = (c \<in> set ''iMWcm'')"

section \<open>Texts and decimal numerals\<close>

text \<open>
  \<open>contains_text sub s\<close>: the text \<open>sub\<close> stands somewhere in \<open>s\<close>. \<open>decimal_value ds\<close> is the
  number that the decimal digits \<open>ds\<close> write: each digit counts ten to the number of digits
  that follow it.
\<close>

definition contains_text :: "string \<Rightarrow> string \<Rightarrow> bool" where
  "contains_text sub s = (\<exists>pre post. s = pre @ sub @ post)"

fun decimal_value :: "string \<Rightarrow> int" where
  "decimal_value [] = 0"
| "decimal_value (c # cs) = (int (of_char c) - 48) * 10 ^ length cs + decimal_value cs"

chapter \<open>Properties\<close>

section \<open>Sets and frequency tables\<close>

lemma set_foldl_set_add: "set (foldl set_add acc xs) = set acc \<union> set xs"
  by (induction xs arbitrary: acc) (auto simp: set_add_def)

lemma distinct_foldl_set_add: "distinct acc \<Longrightarrow> distinct (foldl set_add acc xs)"
  by (induction xs arbitrary: acc) (auto simp: set_add_def)

lemma set_new_Set: "set (new_Set xs) = set xs"
  by (simp add: new_Set_def set_foldl_set_add)

lemma distinct_new_Set: "distinct (new_Set xs)"
  by (simp add: new_Set_def distinct_foldl_set_add)

lemma uniqueChars_card: "uniqueChars v = card (set v)"
  using distinct_card [OF distinct_new_Set, of v] by (simp add: uniqueChars_def set_new_Set)

lemma keys_insert_property: "fst ` set (insert_property k v ps) = insert k (fst ` set ps)"
  by (induction k v ps rule: insert_property.induct) auto

lemma distinct_insert_property:
  "k \<notin> fst ` set ps \<Longrightarrow> distinct (map fst ps) \<Longrightarrow> distinct (map fst (insert_property k v ps))"
proof (induction ps)
  case Nil
  then show ?case by simp
next
  case (Cons p ps)
  obtain k' v' where p: "p = (k', v')" by (cases p)
  from Cons.prems have "k \<noteq> k'" "k \<notin> fst ` set ps" "k' \<notin> fst ` set ps" "distinct (map fst ps)"
    by (auto simp: p)
  with Cons.IH show ?case
    using keys_insert_property [of k v ps] by (auto simp: p)
qed

lemma map_of_insert_property:
  "k \<notin> fst ` set ps \<Longrightarrow>
   map_of (insert_property k v ps) x = (if x = k then Some v else map_of ps x)"
  by (induction k v ps rule: insert_property.induct) auto

lemma keys_replace_property: "fst ` set (replace_property k v ps) = fst ` set ps"
  by (induction k v ps rule: replace_property.induct) auto

lemma map_fst_replace_property: "map fst (replace_property k v ps) = map fst ps"
  by (induction k v ps rule: replace_property.induct) auto

lemma map_of_replace_property:
  "map_of (replace_property k v ps) x
     = (if x = k \<and> map_of ps k \<noteq> None then Some v else map_of ps x)"
  by (induction k v ps rule: replace_property.induct) auto

lemma keys_assign_property: "fst ` set (assign_property obj k v) = insert k (fst ` set obj)"
  by (auto simp: assign_property_def keys_replace_property keys_insert_property)

lemma distinct_assign_property:
  "distinct (map fst obj) \<Longrightarrow> distinct (map fst (assign_property obj k v))"
  by (simp add: assign_property_def distinct_insert_property map_fst_replace_property)

lemma map_of_assign_property:
  "map_of (assign_property obj k v) x = (if x = k then Some v else map_of obj x)"
  by (auto simp: assign_property_def map_of_insert_property map_of_replace_property
      map_of_eq_None_iff)

lemma count_char_fold:
  "distinct (map fst acc) \<Longrightarrow>
   distinct (map fst (foldl count_char acc v)) \<and>
   fst ` set (foldl count_char acc v) = fst ` set acc \<union> set v \<and>
   (\<forall>c. read_or_zero (foldl count_char acc v) c = read_or_zero acc c + count_list v c)"
proof (induction v arbitrary: acc)
  case Nil
  then show ?case by simp
next
  case (Cons x xs)
  have d: "distinct (map fst (count_char acc x))"
    unfolding count_char_def using Cons.prems by (rule distinct_assign_property)
  have k: "fst ` set (count_char acc x) = insert x (fst ` set acc)"
    unfolding count_char_def by (rule keys_assign_property)
  have r: "read_or_zero (count_char acc x) c
             = (if c = x then read_or_zero acc x + 1 else read_or_zero acc c)" for c
    by (simp add: count_char_def read_or_zero_def map_of_assign_property)
  from Cons.IH [OF d] show ?case
    by (auto simp: k r)
qed

lemma distinct_charFrequency: "distinct (map fst (charFrequency v))"
  using count_char_fold [of "[]" v] by (simp add: charFrequency_def)

lemma keys_charFrequency: "fst ` set (charFrequency v) = set v"
  using count_char_fold [of "[]" v] by (simp add: charFrequency_def)

lemma read_charFrequency: "read_or_zero (charFrequency v) c = count_list v c"
  using count_char_fold [of "[]" v] by (simp add: charFrequency_def read_or_zero_def)

lemma length_charFrequency: "length (charFrequency v) = card (set v)"
proof -
  have "length (charFrequency v) = length (map fst (charFrequency v))" by simp
  also have "\<dots> = card (set (map fst (charFrequency v)))"
    using distinct_card [OF distinct_charFrequency, of v] by simp
  also have "\<dots> = card (set v)" using keys_charFrequency [of v] by simp
  finally show ?thesis .
qed

lemma map_of_charFrequency:
  "map_of (charFrequency v) c = (if c \<in> set v then Some (count_list v c) else None)"
proof (cases "c \<in> set v")
  case True
  then have "c \<in> fst ` set (charFrequency v)" by (simp add: keys_charFrequency)
  then obtain n where n: "map_of (charFrequency v) c = Some n"
    by (metis domD dom_map_of_conv_image_fst)
  with read_charFrequency [of v c] have "n = count_list v c" by (simp add: read_or_zero_def)
  with n True show ?thesis by simp
next
  case False
  then have "c \<notin> fst ` set (charFrequency v)" by (simp add: keys_charFrequency)
  then have "map_of (charFrequency v) c = None" by (simp add: map_of_eq_None_iff)
  with False show ?thesis by simp
qed

text \<open>
  Claim C9. In the record returned by \<open>analyzeString\<close>, \<open>unique_characters\<close> is the number of
  distinct keys of \<open>character_frequency_map\<close>: the keys of the table are pairwise distinct,
  there are as many of them as the set built by \<open>new Set(value)\<close> has elements, and a
  character is a key of the table exactly when it is an element of that set.
\<close>

theorem unique_characters_counts_frequency_keys:
  "unique_characters (properties (analyzeString sha256 now v))
     = card (fst ` set (character_frequency_map (properties (analyzeString sha256 now v))))
   \<and> unique_characters (properties (analyzeString sha256 now v))
     = length (character_frequency_map (properties (analyzeString sha256 now v)))
   \<and> distinct (map fst (character_frequency_map (properties (analyzeString sha256 now v))))
   \<and> (\<forall>c. (c \<in> fst ` set (character_frequency_map (properties (analyzeString sha256 now v))))
           = (c \<in> set (new_Set v)))"
  by (simp add: analyzeString_def uniqueChars_card keys_charFrequency length_charFrequency
      distinct_charFrequency set_new_Set)

section \<open>The empty string and strings of white space\<close>

lemma is_space_not_upper: "is_space c \<Longrightarrow> \<not> is_upper c"
  by (auto simp: is_space_def is_upper_def Let_def)

lemma lower_char_space: "is_space c \<Longrightarrow> lower_char c = c"
  by (simp add: lower_char_def is_space_not_upper)

lemma remove_spaces_all_space: "list_all is_space v \<Longrightarrow> remove_spaces (toLowerCase v) = []"
  by (induction v) (auto simp: remove_spaces_def toLowerCase_def lower_char_space)

lemma dropWhile_all_space: "list_all is_space v \<Longrightarrow> dropWhile is_space v = []"
  by (induction v) auto

lemma trim_all_space: "list_all is_space v \<Longrightarrow> trim v = []"
  by (simp add: trim_def dropWhile_all_space)

lemma isPalindrome_all_space: "list_all is_space v \<Longrightarrow> isPalindrome v"
  by (simp add: isPalindrome_def remove_spaces_all_space)

lemma wordCount_all_space: "list_all is_space v \<Longrightarrow> wordCount v = 0"
  by (simp add: wordCount_def trim_all_space)

text \<open>
  Claim C7. For the empty string \<open>analyzeString\<close> gives length 0, word count 0, no unique
  character, a palindrome and an empty frequency table. For a string that consists of
  white space only it gives word count 0 and a palindrome, while the length is the length
  of the string and the frequency table has exactly the characters of the string as keys,
  each with the number of its occurrences.
\<close>

theorem analyzeString_empty_and_whitespace:
  "properties (analyzeString sha256 now '''')
     = \<lparr> length_field = 0, is_palindrome = True, unique_characters = 0, word_count = 0,
         sha256_hash = generateHash sha256 '''', character_frequency_map = [] \<rparr>
   \<and> (list_all is_space v \<longrightarrow>
        word_count (properties (analyzeString sha256 now v)) = 0
      \<and> is_palindrome (properties (analyzeString sha256 now v))
      \<and> length_field (properties (analyzeString sha256 now v)) = length v
      \<and> fst ` set (character_frequency_map (properties (analyzeString sha256 now v))) = set v
      \<and> (\<forall>c. map_of (character_frequency_map (properties (analyzeString sha256 now v))) c
              = (if c \<in> set v then Some (count_list v c) else None)))"
proof -
  have e: "properties (analyzeString sha256 now '''')
     = \<lparr> length_field = 0, is_palindrome = True, unique_characters = 0, word_count = 0,
         sha256_hash = generateHash sha256 '''', character_frequency_map = [] \<rparr>"
    by (simp add: analyzeString_def isPalindrome_def remove_spaces_def toLowerCase_def
        uniqueChars_def new_Set_def wordCount_def trim_def charFrequency_def)
  have w: "list_all is_space v \<Longrightarrow>
        word_count (properties (analyzeString sha256 now v)) = 0
      \<and> is_palindrome (properties (analyzeString sha256 now v))
      \<and> length_field (properties (analyzeString sha256 now v)) = length v
      \<and> fst ` set (character_frequency_map (properties (analyzeString sha256 now v))) = set v
      \<and> (\<forall>c. map_of (character_frequency_map (properties (analyzeString sha256 now v))) c
              = (if c \<in> set v then Some (count_list v c) else None))"
    by (simp add: analyzeString_def wordCount_all_space isPalindrome_all_space
        keys_charFrequency map_of_charFrequency)
  from e w show ?thesis by blast
qed

theorem analyzeString_empty_and_whitespace_witness:
  "list_all is_space [CHR '' '', CHR 0x09, CHR '' '', CHR 0xA0]
   \<and> word_count (properties (analyzeString (\<lambda>s. s) ''t'' [CHR '' '', CHR 0x09, CHR '' '', CHR 0xA0])) = 0
   \<and> is_palindrome (properties (analyzeString (\<lambda>s. s) ''t'' [CHR '' '', CHR 0x09, CHR '' '', CHR 0xA0]))
   \<and> length_field (properties (analyzeString (\<lambda>s. s) ''t'' [CHR '' '', CHR 0x09, CHR '' '', CHR 0xA0])) = 4
   \<and> map_of (character_frequency_map (properties
        (analyzeString (\<lambda>s. s) ''t'' [CHR '' '', CHR 0x09, CHR '' '', CHR 0xA0]))) (CHR '' '') = Some 2"
proof -
  have h: "list_all is_space [CHR '' '', CHR 0x09, CHR '' '', CHR 0xA0]"
    by (simp add: is_space_def)
  from h analyzeString_empty_and_whitespace [of "\<lambda>s. s" "''t''" "[CHR '' '', CHR 0x09, CHR '' '', CHR 0xA0]"]
  show ?thesis by simp
qed

section \<open>Determinism\<close>

text \<open>
  Claim C3. Two calls of \<open>analyzeString\<close> on the same string, at the times \<open>t1\<close> and \<open>t2\<close>,
  return records that agree in \<open>id\<close>, in \<open>value\<close> and in the six analysed properties;
  \<open>created_at\<close> holds the time of the call and is the only field that can differ: the
  first record is the second one with \<open>created_at\<close> set to \<open>t1\<close>. This holds for both
  variants of the analyser; the second one keeps \<open>created_at\<close> among the properties.
\<close>

theorem analyzeString_deterministic:
  "analyzeString sha256 t1 v = (analyzeString sha256 t2 v)\<lparr>created_at := t1\<rparr>
   \<and> id_field (analyzeString sha256 t1 v) = id_field (analyzeString sha256 t2 v)
   \<and> value_field (analyzeString sha256 t1 v) = value_field (analyzeString sha256 t2 v)
   \<and> properties (analyzeString sha256 t1 v) = properties (analyzeString sha256 t2 v)
   \<and> created_at (analyzeString sha256 t1 v) = t1
   \<and> analyzeString_v2 sha256 t1 v
       = (analyzeString_v2 sha256 t2 v)
           \<lparr>properties := (properties (analyzeString_v2 sha256 t2 v))\<lparr>created_at_v2 := t1\<rparr>\<rparr>
   \<and> id_field (analyzeString_v2 sha256 t1 v) = id_field (analyzeString_v2 sha256 t2 v)
   \<and> value_field (analyzeString_v2 sha256 t1 v) = value_field (analyzeString_v2 sha256 t2 v)
   \<and> properties.truncate (properties (analyzeString_v2 sha256 t1 v))
       = properties.truncate (properties (analyzeString_v2 sha256 t2 v))
   \<and> created_at_v2 (properties (analyzeString_v2 sha256 t1 v)) = t1"
  by (simp add: analyzeString_def analyzeString_v2_def properties.truncate_def)

section \<open>The store\<close>

lemma map_set_absent: "\<not> map_has m k \<Longrightarrow> map_set m k v = m @ [(k, v)]"
  by (induction m) (auto simp: map_has_def)

lemma map_has_map_delete: "map_has (map_delete m k) k' = (map_has m k' \<and> k' \<noteq> k)"
  by (auto simp: map_has_def map_delete_def)

lemma distinct_keys_map_delete: "distinct (map fst m) \<Longrightarrow> distinct (map fst (map_delete m k))"
  by (simp add: map_delete_def distinct_map_filter)

lemma post_strings_present:
  "map_has store (generateHash sha v) \<Longrightarrow>
   post_strings sha now store (String v)
     = ((409, ErrorMessageBody ''Duplicate string'' ''This string already exists''), store)"
  by (simp add: post_strings_def Let_def)

lemma post_strings_absent:
  "\<not> map_has store (generateHash sha v) \<Longrightarrow>
   post_strings sha now store (String v)
     = ((201, ItemBody (analyzeString sha now v)),
        store @ [(generateHash sha v, analyzeString sha now v)])"
  by (simp add: post_strings_def map_set_absent Let_def)

lemma post_strings_v2_present:
  "map_has store (generateHash sha v) \<Longrightarrow>
   fst (fst (post_strings_v2 sha now store (String v))) = 409
   \<and> snd (post_strings_v2 sha now store (String v)) = store"
  by (simp add: post_strings_v2_def Let_def)

lemma post_strings_v2_absent:
  "\<not> map_has store (generateHash sha v) \<Longrightarrow>
   post_strings_v2 sha now store (String v)
     = ((201, ItemBody (analyzeString_v2 sha now v)),
        store @ [(generateHash sha v, analyzeString_v2 sha now v)])"
  by (simp add: post_strings_v2_def map_set_absent Let_def)

lemma post_strings_store:
  "snd (post_strings sha now store val)
     = (case val of
          String v \<Rightarrow> if map_has store (generateHash sha v) then store
                      else store @ [(generateHash sha v, analyzeString sha now v)]
        | _ \<Rightarrow> store)"
  by (cases val) (simp_all add: post_strings_def map_set_absent Let_def)

lemma post_strings_v2_store:
  "snd (post_strings_v2 sha now store val)
     = (case val of
          String v \<Rightarrow> if map_has store (generateHash sha v) then store
                      else store @ [(generateHash sha v, analyzeString_v2 sha now v)]
        | _ \<Rightarrow> store)"
  by (cases val) (simp_all add: post_strings_v2_def map_set_absent Let_def)

lemma delete_string_store:
  "snd (delete_string sha store v) = map_delete store (generateHash sha v)"
proof (cases "map_has store (generateHash sha v)")
  case True
  then show ?thesis by (simp add: delete_string_def Let_def)
next
  case False
  then have "filter (\<lambda>e. fst e \<noteq> generateHash sha v) store = store"
    by (force simp: map_has_def filter_id_conv)
  with False show ?thesis by (simp add: delete_string_def map_delete_def Let_def)
qed

lemma delete_string_v2_store:
  "snd (delete_string_v2 sha store v) = snd (delete_string sha store v)"
  by (simp add: delete_string_v2_def delete_string_def Let_def)

lemma keyed_analyzeString:
  "keyed_by_digest sha (generateHash sha v, analyzeString sha now v)"
  by (simp add: keyed_by_digest_def analyzeString_def)

lemma keyed_analyzeString_v2:
  "keyed_by_digest sha (generateHash sha v, analyzeString_v2 sha now v)"
  by (simp add: keyed_by_digest_def analyzeString_v2_def)

lemma invariant_post_strings:
  "store_invariant sha store \<Longrightarrow> store_invariant sha (snd (post_strings sha now store val))"
  by (cases val) (simp_all add: post_strings_store store_invariant_def keyed_analyzeString)

lemma invariant_post_strings_v2:
  "store_invariant sha store \<Longrightarrow>
   store_invariant sha (snd (post_strings_v2 sha now store val))"
  by (cases val) (simp_all add: post_strings_v2_store store_invariant_def keyed_analyzeString_v2)

lemma invariant_delete_string:
  "store_invariant sha store \<Longrightarrow> store_invariant sha (snd (delete_string sha store v))"
  by (simp add: delete_string_store store_invariant_def map_delete_def list_all_iff)

lemma distinct_keys_post_strings:
  "distinct (map fst store) \<Longrightarrow> distinct (map fst (snd (post_strings sha now store val)))"
  by (cases val) (auto simp: post_strings_store map_has_def)

lemma distinct_keys_post_strings_v2:
  "distinct (map fst store) \<Longrightarrow> distinct (map fst (snd (post_strings_v2 sha now store val)))"
  by (cases val) (auto simp: post_strings_v2_store map_has_def)

lemma distinct_keys_delete_string:
  "distinct (map fst store) \<Longrightarrow> distinct (map fst (snd (delete_string sha store v)))"
  by (simp add: delete_string_store distinct_keys_map_delete)

lemma run_requests_invariants:
  "store_invariant sha store \<Longrightarrow> distinct (map fst store) \<Longrightarrow>
   store_invariant sha (run_requests sha store reqs)
   \<and> distinct (map fst (run_requests sha store reqs))"
proof (induction reqs arbitrary: store)
  case Nil
  then show ?case by (simp add: run_requests_def)
next
  case (Cons req reqs)
  have "store_invariant sha (handle_request sha store req)
        \<and> distinct (map fst (handle_request sha store req))"
    using Cons.prems
    by (cases req)
      (simp_all add: invariant_post_strings invariant_delete_string distinct_keys_post_strings
        distinct_keys_delete_string)
  with Cons.IH [of "handle_request sha store req"] show ?case
    by (simp add: run_requests_def)
qed

lemma run_requests_v2_invariants:
  "store_invariant sha store \<Longrightarrow> distinct (map fst store) \<Longrightarrow>
   store_invariant sha (run_requests_v2 sha store reqs)
   \<and> distinct (map fst (run_requests_v2 sha store reqs))"
proof (induction reqs arbitrary: store)
  case Nil
  then show ?case by (simp add: run_requests_v2_def)
next
  case (Cons req reqs)
  have "store_invariant sha (handle_request_v2 sha store req)
        \<and> distinct (map fst (handle_request_v2 sha store req))"
    using Cons.prems
    by (cases req)
      (simp_all add: invariant_post_strings_v2 invariant_delete_string
        distinct_keys_post_strings_v2 distinct_keys_delete_string delete_string_v2_store)
  with Cons.IH [of "handle_request_v2 sha store req"] show ?case
    by (simp add: run_requests_v2_def)
qed

lemma distinct_values:
  assumes "store_invariant sha store" and "distinct (map fst store)"
  shows "distinct (map value_field (map_values store))"
proof -
  from assms(1) have "map fst store = map (generateHash sha) (map value_field (map_values store))"
    by (induction store) (auto simp: store_invariant_def keyed_by_digest_def map_values_def)
  with assms(2) show ?thesis by (simp only: distinct_map)
qed

text \<open>
  Claim C1. When the store already has the key \<open>hash(v)\<close>, \<open>POST /strings\<close> with the value
  \<open>v\<close> answers 409 and leaves the store as it was: nothing is overwritten and nothing is
  inserted. Otherwise it answers 201 with the record \<open>analyzeString(v)\<close> and appends that
  record under the key \<open>hash(v)\<close>. After any sequence of \<open>POST\<close> and \<open>DELETE\<close> requests, started
  on the empty store, no two records of the store have the same value. Both variants of
  the handler behave so.
\<close>

theorem post_strings_once_per_content:
  "(map_has store (generateHash sha v) \<longrightarrow>
      post_strings sha now store (String v)
        = ((409, ErrorMessageBody ''Duplicate string'' ''This string already exists''), store))
   \<and> (\<not> map_has store (generateHash sha v) \<longrightarrow>
      post_strings sha now store (String v)
        = ((201, ItemBody (analyzeString sha now v)),
           store @ [(generateHash sha v, analyzeString sha now v)]))
   \<and> distinct (map value_field (map_values (run_requests sha [] reqs)))
   \<and> (map_has store' (generateHash sha v) \<longrightarrow>
      fst (fst (post_strings_v2 sha now store' (String v))) = 409
      \<and> snd (post_strings_v2 sha now store' (String v)) = store')
   \<and> (\<not> map_has store' (generateHash sha v) \<longrightarrow>
      post_strings_v2 sha now store' (String v)
        = ((201, ItemBody (analyzeString_v2 sha now v)),
           store' @ [(generateHash sha v, analyzeString_v2 sha now v)]))
   \<and> distinct (map value_field (map_values (run_requests_v2 sha [] reqs)))"
proof -
  have e: "store_invariant sha []" "distinct (map fst ([] :: analyzed_string store))"
    by (simp_all add: store_invariant_def)
  have e2: "distinct (map fst ([] :: analyzed_string_v2 store))"
    by simp
  have d1: "distinct (map value_field (map_values (run_requests sha [] reqs)))"
    using run_requests_invariants [OF e, of reqs] by (blast intro: distinct_values)
  have d2: "distinct (map value_field (map_values (run_requests_v2 sha [] reqs)))"
    using run_requests_v2_invariants [OF e(1) e2, of reqs] by (blast intro: distinct_values)
  show ?thesis
    using d1 d2
    by (simp add: post_strings_present post_strings_absent post_strings_v2_present
        post_strings_v2_absent)
qed

theorem post_strings_once_per_content_witness:
  "post_strings (\<lambda>s. s) ''t1'' [] (String ''abc'')
     = ((201, ItemBody (analyzeString (\<lambda>s. s) ''t1'' ''abc'')),
        [(''abc'', analyzeString (\<lambda>s. s) ''t1'' ''abc'')])
   \<and> post_strings (\<lambda>s. s) ''t2'' [(''abc'', analyzeString (\<lambda>s. s) ''t1'' ''abc'')] (String ''abc'')
     = ((409, ErrorMessageBody ''Duplicate string'' ''This string already exists''),
        [(''abc'', analyzeString (\<lambda>s. s) ''t1'' ''abc'')])
   \<and> fst (fst (post_strings_v2 (\<lambda>s. s) ''t2'' [(''abc'', analyzeString_v2 (\<lambda>s. s) ''t1'' ''abc'')]
                 (String ''abc''))) = 409
   \<and> map value_field (map_values
        (run_requests (\<lambda>s. s) [] [Post ''t1'' (String ''abc''), Post ''t2'' (String ''abc'')]))
     = [''abc'']"
proof -
  have a: "\<not> map_has ([] :: analyzed_string store) (generateHash (\<lambda>s. s) ''abc'')"
    by (simp add: map_has_def)
  have p: "map_has [(''abc'', analyzeString (\<lambda>s. s) ''t1'' ''abc'')] (generateHash (\<lambda>s. s) ''abc'')"
    by (simp add: map_has_def generateHash_def)
  have p2: "map_has [(''abc'', analyzeString_v2 (\<lambda>s. s) ''t1'' ''abc'')] (generateHash (\<lambda>s. s) ''abc'')"
    by (simp add: map_has_def generateHash_def)
  have r: "map value_field (map_values
        (run_requests (\<lambda>s. s) [] [Post ''t1'' (String ''abc''), Post ''t2'' (String ''abc'')]))
     = [''abc'']"
    by (simp add: run_requests_def post_strings_store map_has_def generateHash_def map_values_def
        analyzeString_def)
  from a p p2 r
    post_strings_once_per_content [where store = "[]" and sha = "\<lambda>s. s" and v = "''abc''"
      and now = "''t1''"]
    post_strings_once_per_content [where store = "[(''abc'', analyzeString (\<lambda>s. s) ''t1'' ''abc'')]"
      and store' = "[(''abc'', analyzeString_v2 (\<lambda>s. s) ''t1'' ''abc'')]"
      and sha = "\<lambda>s. s" and v = "''abc''" and now = "''t2''"]
  show ?thesis by (simp add: generateHash_def)
qed

lemma get_string_found:
  "get_string sha store v = (200, ItemBody r) \<Longrightarrow> (generateHash sha v, r) \<in> set store"
  by (auto simp: get_string_def Let_def json_of_lookup_def map_get_def
      split: if_splits option.splits dest: map_of_SomeD)

lemma delete_string_removed:
  "e \<in> set store \<Longrightarrow> e \<notin> set (snd (delete_string sha store v)) \<Longrightarrow>
   fst e = generateHash sha v"
  by (simp add: delete_string_store map_delete_def)

lemma set_apply_filters: "set (apply_filters f rs) \<subseteq> set rs"
  by (auto simp: apply_filters_def filter_contains_character_def filter_word_count_def
      filter_max_length_def filter_min_length_def filter_is_palindrome_def split: option.splits)

lemma get_strings_listed:
  "get_strings store q = (200, ListBody rs n f) \<Longrightarrow> set rs \<subseteq> snd ` set store"
  using set_apply_filters [of "fst (validate messages_v1 q)" "map_values store"]
  by (auto simp: get_strings_def Let_def map_values_def split: prod.splits if_splits)

text \<open>
  Claim C8. Every entry of the store is keyed by the digest of the value of its record,
  and the record carries the same digest as \<open>id\<close> and as \<open>sha256_hash\<close>. The empty store
  satisfies this; \<open>POST\<close> and \<open>DELETE\<close> preserve it, so it holds after every sequence of
  requests; the \<open>GET\<close> handlers return no store and so change nothing. Under the invariant,
  a record that \<open>GET /strings/v\<close> returns has a value that hashes to \<open>hash(v)\<close>, every entry
  that \<open>DELETE /strings/v\<close> removes has a value that hashes to \<open>hash(v)\<close>, and every record
  that \<open>GET /strings\<close> lists has the digest of its value as \<open>id\<close> and as \<open>sha256_hash\<close>.
\<close>

theorem store_keyed_by_digest:
  "store_invariant sha ([] :: analyzed_string store)
   \<and> (store_invariant sha store \<longrightarrow>
        store_invariant sha (snd (post_strings sha now store val))
      \<and> store_invariant sha (snd (delete_string sha store v))
      \<and> (get_string sha store v = (200, ItemBody r) \<longrightarrow>
            generateHash sha (value_field r) = generateHash sha v
          \<and> id_field r = generateHash sha v
          \<and> sha256_hash (properties r) = generateHash sha v)
      \<and> (e \<in> set store \<and> e \<notin> set (snd (delete_string sha store v)) \<longrightarrow>
            fst e = generateHash sha v
          \<and> generateHash sha (value_field (snd e)) = generateHash sha v)
      \<and> (get_strings store q = (200, ListBody rs n f) \<longrightarrow>
            list_all (\<lambda>x. id_field x = generateHash sha (value_field x)
                         \<and> sha256_hash (properties x) = generateHash sha (value_field x)) rs))
   \<and> store_invariant sha (run_requests sha [] reqs)"
proof -
  have empty: "store_invariant sha ([] :: analyzed_string store)"
    by (simp add: store_invariant_def)
  have run: "store_invariant sha (run_requests sha [] reqs)"
    using run_requests_invariants [OF empty, of reqs] by simp
  have found: "generateHash sha (value_field r) = generateHash sha v
          \<and> id_field r = generateHash sha v
          \<and> sha256_hash (properties r) = generateHash sha v"
    if inv: "store_invariant sha store" and g: "get_string sha store v = (200, ItemBody r)"
  proof -
    from g have "(generateHash sha v, r) \<in> set store" by (rule get_string_found)
    with inv have "keyed_by_digest sha (generateHash sha v, r)"
      by (simp add: store_invariant_def list_all_iff)
    then show ?thesis by (simp add: keyed_by_digest_def)
  qed
  have removed: "fst e = generateHash sha v
          \<and> generateHash sha (value_field (snd e)) = generateHash sha v"
    if inv: "store_invariant sha store" and m: "e \<in> set store"
      and d: "e \<notin> set (snd (delete_string sha store v))"
  proof -
    from m d have k: "fst e = generateHash sha v" by (rule delete_string_removed)
    from inv m have "keyed_by_digest sha e" by (simp add: store_invariant_def list_all_iff)
    with k show ?thesis by (simp add: keyed_by_digest_def)
  qed
  have listed: "list_all (\<lambda>x. id_field x = generateHash sha (value_field x)
                         \<and> sha256_hash (properties x) = generateHash sha (value_field x)) rs"
    if inv: "store_invariant sha store" and g: "get_strings store q = (200, ListBody rs n f)"
  proof -
    from g have "set rs \<subseteq> snd ` set store" by (rule get_strings_listed)
    with inv show ?thesis
      by (fastforce simp: store_invariant_def list_all_iff keyed_by_digest_def)
  qed
  from empty run found removed listed show ?thesis
    by (simp add: invariant_post_strings invariant_delete_string)
qed

theorem store_keyed_by_digest_witness:
  "store_invariant (\<lambda>s. s) [(''abc'', analyzeString (\<lambda>s. s) ''t1'' ''abc'')]
   \<and> get_string (\<lambda>s. s) [(''abc'', analyzeString (\<lambda>s. s) ''t1'' ''abc'')] ''abc''
       = (200, ItemBody (analyzeString (\<lambda>s. s) ''t1'' ''abc''))
   \<and> generateHash (\<lambda>s. s) (value_field (analyzeString (\<lambda>s. s) ''t1'' ''abc''))
       = generateHash (\<lambda>s. s) ''abc''
   \<and> store_invariant (\<lambda>s. s)
       (snd (post_strings (\<lambda>s. s) ''t2'' [(''abc'', analyzeString (\<lambda>s. s) ''t1'' ''abc'')]
          (String ''xyz'')))
   \<and> (''abc'', analyzeString (\<lambda>s. s) ''t1'' ''abc'')
       \<notin> set (snd (delete_string (\<lambda>s. s) [(''abc'', analyzeString (\<lambda>s. s) ''t1'' ''abc'')] ''abc''))
   \<and> store_invariant (\<lambda>s. s)
       (snd (delete_string (\<lambda>s. s) [(''abc'', analyzeString (\<lambda>s. s) ''t1'' ''abc'')] ''abc''))"
proof -
  have i: "store_invariant (\<lambda>s. s) [(''abc'', analyzeString (\<lambda>s. s) ''t1'' ''abc'')]"
    by (simp add: store_invariant_def keyed_by_digest_def analyzeString_def generateHash_def)
  have g: "get_string (\<lambda>s. s) [(''abc'', analyzeString (\<lambda>s. s) ''t1'' ''abc'')] ''abc''
       = (200, ItemBody (analyzeString (\<lambda>s. s) ''t1'' ''abc''))"
    by (simp add: get_string_def map_has_def map_get_def json_of_lookup_def generateHash_def)
  have d: "(''abc'', analyzeString (\<lambda>s. s) ''t1'' ''abc'')
       \<notin> set (snd (delete_string (\<lambda>s. s) [(''abc'', analyzeString (\<lambda>s. s) ''t1'' ''abc'')] ''abc''))"
    by (simp add: delete_string_store map_delete_def generateHash_def)
  from i g d
    store_keyed_by_digest [where sha = "\<lambda>s. s"
      and store = "[(''abc'', analyzeString (\<lambda>s. s) ''t1'' ''abc'')]" and v = "''abc''"
      and r = "analyzeString (\<lambda>s. s) ''t1'' ''abc''" and now = "''t2''" and val = "String ''xyz''"
      and e = "(''abc'', analyzeString (\<lambda>s. s) ''t1'' ''abc'')"]
  show ?thesis by simp
qed

section \<open>Filtering\<close>

lemma includes_str_single: "includes_str v [c] = (c \<in> set v)"
  by (induction v) auto

lemma num_le_Finite: "num_le (Finite a) (Finite b) = (a \<le> b)"
  by (auto simp: num_le_def num_eq_def)

lemma num_eq_Finite: "num_eq (Finite a) (Finite b) = (a = b)"
  by (simp add: num_eq_def)

lemma filter_is_palindrome_js:
  "filter_is_palindrome (js_filters f) rs
     = filter (\<lambda>r. case fs_is_palindrome f of None \<Rightarrow> True
                    | Some b \<Rightarrow> is_palindrome (properties r) = b) rs"
  by (simp add: filter_is_palindrome_def js_filters_def split: option.splits)

lemma filter_min_length_js:
  "filter_min_length (js_filters f) rs
     = filter (\<lambda>r. case fs_min_length f of None \<Rightarrow> True
                    | Some n \<Rightarrow> n \<le> length_field (properties r)) rs"
  by (simp add: filter_min_length_def js_filters_def length_number_def num_le_Finite
      split: option.splits)

lemma filter_max_length_js:
  "filter_max_length (js_filters f) rs
     = filter (\<lambda>r. case fs_max_length f of None \<Rightarrow> True
                    | Some n \<Rightarrow> length_field (properties r) \<le> n) rs"
  by (simp add: filter_max_length_def js_filters_def length_number_def num_le_Finite
      split: option.splits)

lemma filter_word_count_js:
  "filter_word_count (js_filters f) rs
     = filter (\<lambda>r. case fs_word_count f of None \<Rightarrow> True
                    | Some n \<Rightarrow> word_count (properties r) = n) rs"
  by (simp add: filter_word_count_def js_filters_def word_count_number_def num_eq_Finite
      split: option.splits)

lemma filter_contains_character_js:
  "filter_contains_character (js_filters f) rs
     = filter (\<lambda>r. case fs_contains_character f of None \<Rightarrow> True
                    | Some c \<Rightarrow> c \<in> set (value_field r)) rs"
  by (simp add: filter_contains_character_def js_filters_def includes_str_single
      split: option.splits)

lemma apply_filters_no_filters: "apply_filters no_filters rs = rs"
  by (simp add: apply_filters_def no_filters_def filter_contains_character_def
      filter_word_count_def filter_max_length_def filter_min_length_def filter_is_palindrome_def)

text \<open>
  Claim C4. For every FilterSet \<open>f\<close> and every sequence of records, the filtering of
  \<open>GET /strings\<close> returns exactly the records that satisfy all the filters present in \<open>f\<close>,
  in their order: \<open>min_length\<close> and \<open>max_length\<close> are inclusive bounds on the length,
  \<open>is_palindrome\<close> and \<open>word_count\<close> are exact matches, \<open>contains_character\<close> asks that the
  character occurs in the value as it is written; a filter that is absent asks nothing,
  and the empty FilterSet returns the records unchanged.
\<close>

theorem apply_filters_conjunction:
  "apply_filters (js_filters f) rs = filter (satisfies f) rs
   \<and> js_filters empty_FilterSet = no_filters
   \<and> apply_filters no_filters rs = rs"
proof -
  have "apply_filters (js_filters f) rs = filter (satisfies f) rs"
    unfolding apply_filters_def filter_is_palindrome_js filter_min_length_js filter_max_length_js
      filter_word_count_js filter_contains_character_js filter_filter satisfies_def
    by (rule filter_cong) auto
  moreover have "js_filters empty_FilterSet = no_filters"
    by (simp add: js_filters_def empty_FilterSet_def no_filters_def)
  ultimately show ?thesis by (simp add: apply_filters_no_filters)
qed

theorem apply_filters_conjunction_witness:
  "map value_field
     (apply_filters
        (js_filters (empty_FilterSet\<lparr>fs_min_length := Some 2, fs_max_length := Some 2\<rparr>))
        [analyzeString (\<lambda>s. s) ''t1'' ''aa'', analyzeString (\<lambda>s. s) ''t2'' ''ab'',
         analyzeString (\<lambda>s. s) ''t3'' ''abc''])
     = [''aa'', ''ab'']
   \<and> map value_field
     (apply_filters
        (js_filters (empty_FilterSet\<lparr>fs_contains_character := Some CHR ''b''\<rparr>))
        [analyzeString (\<lambda>s. s) ''t1'' ''aa'', analyzeString (\<lambda>s. s) ''t2'' ''aB'',
         analyzeString (\<lambda>s. s) ''t3'' ''abc''])
     = [''abc'']"
  using
    apply_filters_conjunction [of "empty_FilterSet\<lparr>fs_min_length := Some 2, fs_max_length := Some 2\<rparr>"
      "[analyzeString (\<lambda>s. s) ''t1'' ''aa'', analyzeString (\<lambda>s. s) ''t2'' ''ab'',
        analyzeString (\<lambda>s. s) ''t3'' ''abc'']"]
    apply_filters_conjunction [of "empty_FilterSet\<lparr>fs_contains_character := Some CHR ''b''\<rparr>"
      "[analyzeString (\<lambda>s. s) ''t1'' ''aa'', analyzeString (\<lambda>s. s) ''t2'' ''aB'',
        analyzeString (\<lambda>s. s) ''t3'' ''abc'']"]
  by (simp add: satisfies_def empty_FilterSet_def analyzeString_def)

section \<open>Pattern matching\<close>

lemma digits_group_starts: "(digits_group rest \<noteq> None) = starts_with is_digit rest"
  by (cases rest) (simp_all add: digits_group_def starts_with_def Let_def)

lemma word_char_group_starts: "(word_char_group rest \<noteq> None) = starts_with is_word_char rest"
  by (cases rest) (simp_all add: word_char_group_def starts_with_def)

lemma regex_search_None:
  assumes lit: "lit \<noteq> []" and grp: "\<And>rest. (grp rest \<noteq> None) = starts_with cls rest"
  shows "(regex_search lit grp s = None) = (\<not> has_match lit cls s)"
proof (induction s)
  case Nil
  from lit show ?case by (simp add: has_match_def)
next
  case (Cons c cs)
  have grp': "(\<exists>g. grp rest = Some g) = starts_with cls rest" for rest
    using grp [of rest] by auto
  have here: "(prefix lit (c # cs) \<and> grp (drop (length lit) (c # cs)) \<noteq> None)
                = (\<exists>rest. c # cs = lit @ rest \<and> starts_with cls rest)"
    by (auto simp: prefix_def grp')
  have split: "has_match lit cls (c # cs)
                = ((\<exists>rest. c # cs = lit @ rest \<and> starts_with cls rest) \<or> has_match lit cls cs)"
  proof
    assume "has_match lit cls (c # cs)"
    then obtain pre rest where d: "c # cs = pre @ lit @ rest" "starts_with cls rest"
      by (auto simp: has_match_def)
    show "(\<exists>rest. c # cs = lit @ rest \<and> starts_with cls rest) \<or> has_match lit cls cs"
    proof (cases pre)
      case Nil
      with d show ?thesis by auto
    next
      case (Cons p ps)
      with d have "cs = ps @ lit @ rest" by simp
      with d(2) show ?thesis by (auto simp: has_match_def)
    qed
  next
    assume "(\<exists>rest. c # cs = lit @ rest \<and> starts_with cls rest) \<or> has_match lit cls cs"
    then show "has_match lit cls (c # cs)"
    proof
      assume "\<exists>rest. c # cs = lit @ rest \<and> starts_with cls rest"
      then obtain rest where "c # cs = [] @ lit @ rest" "starts_with cls rest" by auto
      then show ?thesis unfolding has_match_def by blast
    next
      assume "has_match lit cls cs"
      then obtain pre rest where "cs = pre @ lit @ rest" "starts_with cls rest"
        by (auto simp: has_match_def)
      then have "c # cs = (c # pre) @ lit @ rest" "starts_with cls rest" by simp_all
      then show ?thesis unfolding has_match_def by blast
    qed
  qed
  show ?case
  proof (cases "prefix lit (c # cs) \<and> grp (drop (length lit) (c # cs)) \<noteq> None")
    case True
    then obtain g where "grp (drop (length lit) (c # cs)) = Some g" by auto
    with True have "regex_search lit grp (c # cs) = Some g" by simp
    moreover from True here split have "has_match lit cls (c # cs)" by blast
    ultimately show ?thesis by simp
  next
    case False
    with here have nh: "\<not> (\<exists>rest. c # cs = lit @ rest \<and> starts_with cls rest)" by blast
    from False have r: "regex_search lit grp (c # cs) = regex_search lit grp cs" by auto
    from nh split have "has_match lit cls (c # cs) = has_match lit cls cs" by blast
    with r Cons.IH show ?thesis by simp
  qed
qed

lemma regex_search_first_match:
  assumes lit: "lit \<noteq> []" and grp: "\<And>rest. (grp rest \<noteq> None) = starts_with cls rest"
  shows "first_match lit cls s pre rest \<Longrightarrow> regex_search lit grp s = grp rest"
proof (induction pre arbitrary: s)
  case Nil
  then have s: "s = lit @ rest" and st: "starts_with cls rest" by (simp_all add: first_match_def)
  from lit s obtain c cs where cs: "s = c # cs" by (cases lit) auto
  from s have p: "prefix lit s" "drop (length lit) s = rest" by simp_all
  from st grp obtain g where "grp rest = Some g" by fastforce
  with p show ?case unfolding cs by simp
next
  case (Cons p ps)
  from Cons.prems have s: "s = (p # ps) @ lit @ rest" and st: "starts_with cls rest"
    and least: "\<forall>pre' rest'. s = pre' @ lit @ rest' \<and> starts_with cls rest'
                  \<longrightarrow> length (p # ps) \<le> length pre'"
    unfolding first_match_def by blast+
  have no: "\<not> (prefix lit s \<and> grp (drop (length lit) s) \<noteq> None)"
  proof
    assume a: "prefix lit s \<and> grp (drop (length lit) s) \<noteq> None"
    then obtain r where r: "s = lit @ r" by (auto simp: prefix_def)
    with a have "grp r \<noteq> None" by simp
    then have "starts_with cls r" by (simp only: grp)
    with r have "s = [] @ lit @ r \<and> starts_with cls r" by simp
    with least have "length (p # ps) \<le> length ([] :: string)" by blast
    then show False by simp
  qed
  have "first_match lit cls (ps @ lit @ rest) ps rest"
    unfolding first_match_def
  proof (intro conjI allI impI)
    fix pre' rest'
    assume "ps @ lit @ rest = pre' @ lit @ rest' \<and> starts_with cls rest'"
    then have "s = (p # pre') @ lit @ rest' \<and> starts_with cls rest'" using s by simp
    with least have "length (p # ps) \<le> length (p # pre')" by blast
    then show "length ps \<le> length pre'" by simp
  qed (simp_all add: st)
  from Cons.IH [OF this] have "regex_search lit grp (ps @ lit @ rest) = grp rest" .
  moreover from no have "regex_search lit grp s = regex_search lit grp (ps @ lit @ rest)"
    unfolding s by auto
  ultimately show ?case by simp
qed

section \<open>interpretQuery\<close>

lemma interpretQuery_cases:
  fixes q :: string
  defines "l \<equiv> toLowerCase q"
  defines "a \<equiv> includes_str l ''palindromic''"
  defines "b \<equiv> includes_str l ''single word'' \<or> includes_str l ''one word''"
  defines "m \<equiv> regex_search ''longer than '' digits_group l"
  defines "c \<equiv> regex_search ''containing the letter '' word_char_group l"
  shows "interpretQuery q =
     (if \<not> a \<and> \<not> b \<and> m = None \<and> c = None then None
      else Some \<lparr> is_palindrome_filter = (if a then Some True else None),
                  min_length = map_option (\<lambda>g. add_one (parseInt g 0)) m,
                  max_length = None,
                  word_count_filter = (if b then Some (Finite 1) else None),
                  contains_character = c \<rparr>)"
  unfolding interpretQuery_def Let_def l_def [symmetric] a_def [symmetric] b_def [symmetric]
    m_def [symmetric] c_def [symmetric]
  by (cases a; cases b; cases m; cases c) (simp_all add: filter_keys_def no_filters_def)

lemma if_None_eq: "((if P then None else Some x) = None) = P"
  by simp

lemma if_Some_eq: "(if P then None else Some x) = Some f \<Longrightarrow> f = x"
  by (simp split: if_splits)

lemma interpretQuery_None_iff:
  "(interpretQuery q = None)
     = (\<not> includes_str (toLowerCase q) ''palindromic''
        \<and> \<not> includes_str (toLowerCase q) ''single word''
        \<and> \<not> includes_str (toLowerCase q) ''one word''
        \<and> regex_search ''longer than '' digits_group (toLowerCase q) = None
        \<and> regex_search ''containing the letter '' word_char_group (toLowerCase q) = None)"
  unfolding interpretQuery_cases if_None_eq by blast

lemma interpretQuery_Some_fields:
  assumes "interpretQuery q = Some f"
  shows "is_palindrome_filter f
       = (if includes_str (toLowerCase q) ''palindromic'' then Some True else None)
   \<and> word_count_filter f
       = (if includes_str (toLowerCase q) ''single word'' \<or> includes_str (toLowerCase q) ''one word''
          then Some (Finite 1) else None)
   \<and> min_length f
       = map_option (\<lambda>g. add_one (parseInt g 0))
           (regex_search ''longer than '' digits_group (toLowerCase q))
   \<and> max_length f = None
   \<and> contains_character f
       = regex_search ''containing the letter '' word_char_group (toLowerCase q)"
proof -
  from assms [unfolded interpretQuery_cases] have f: "f =
     \<lparr> is_palindrome_filter
          = (if includes_str (toLowerCase q) ''palindromic'' then Some True else None),
        min_length = map_option (\<lambda>g. add_one (parseInt g 0))
           (regex_search ''longer than '' digits_group (toLowerCase q)),
        max_length = None,
        word_count_filter
          = (if includes_str (toLowerCase q) ''single word'' \<or> includes_str (toLowerCase q) ''one word''
             then Some (Finite 1) else None),
        contains_character
          = regex_search ''containing the letter '' word_char_group (toLowerCase q) \<rparr>"
    by (rule if_Some_eq)
  show ?thesis unfolding f by (simp only: filter_set.select_convs simp_thms)
qed

lemma filters_commute:
  "filter_min_length f (filter_word_count f rs) = filter_word_count f (filter_min_length f rs)"
  by (auto simp: filter_min_length_def filter_word_count_def conj_commute split: option.splits)

lemma apply_parsed_filters_eq:
  "max_length f = None \<Longrightarrow> apply_parsed_filters f rs = apply_filters f rs"
  by (simp add: apply_parsed_filters_def apply_filters_def filters_commute filter_max_length_def)

lemma interpretQuery_single_word_palindromic:
  "interpretQuery ''single word palindromic strings''
     = Some \<lparr> is_palindrome_filter = Some True, min_length = None, max_length = None,
              word_count_filter = Some (Finite 1), contains_character = None \<rparr>"
  by code_simp

lemma validate_single_word_palindromic:
  "validate messages_v1
     \<lparr> is_palindrome_param = Some ''true'', min_length_param = None, max_length_param = None,
       word_count_param = Some ''1'', contains_character_param = None \<rparr>
     = (\<lparr> is_palindrome_filter = Some True, min_length = None, max_length = None,
          word_count_filter = Some (Finite 1), contains_character = None \<rparr>, [])"
  by code_simp

text \<open>
  Claim C6. For every phrase that \<open>interpretQuery\<close> accepts and for all records, the
  filtering of the natural-language handler returns what the filtering of \<open>GET /strings\<close>
  returns for the same filter set. In particular the phrase "single word palindromic
  strings" is interpreted as \<open>{is_palindrome: true, word_count: 1}\<close>, the query
  \<open>is_palindrome=true&word_count=1\<close> validates to the same filter set without an error, and
  on every store the two handlers answer 200 with the same records and the same count.
\<close>

theorem natural_language_equivalence:
  "(interpretQuery q = Some f \<longrightarrow> apply_parsed_filters f rs = apply_filters f rs)
   \<and> interpretQuery ''single word palindromic strings''
       = Some \<lparr> is_palindrome_filter = Some True, min_length = None, max_length = None,
                word_count_filter = Some (Finite 1), contains_character = None \<rparr>
   \<and> validate messages_v1
        \<lparr> is_palindrome_param = Some ''true'', min_length_param = None, max_length_param = None,
          word_count_param = Some ''1'', contains_character_param = None \<rparr>
       = (\<lparr> is_palindrome_filter = Some True, min_length = None, max_length = None,
            word_count_filter = Some (Finite 1), contains_character = None \<rparr>, [])
   \<and> get_filter_by_natural_language store (Some ''single word palindromic strings'')
       = (200, InterpretedBody
                 (apply_filters
                    \<lparr> is_palindrome_filter = Some True, min_length = None, max_length = None,
                      word_count_filter = Some (Finite 1), contains_character = None \<rparr>
                    (map_values store))
                 (length (apply_filters
                    \<lparr> is_palindrome_filter = Some True, min_length = None, max_length = None,
                      word_count_filter = Some (Finite 1), contains_character = None \<rparr>
                    (map_values store)))
                 ''single word palindromic strings''
                 \<lparr> is_palindrome_filter = Some True, min_length = None, max_length = None,
                   word_count_filter = Some (Finite 1), contains_character = None \<rparr>)
   \<and> get_strings store
        \<lparr> is_palindrome_param = Some ''true'', min_length_param = None, max_length_param = None,
          word_count_param = Some ''1'', contains_character_param = None \<rparr>
       = (200, ListBody
                 (apply_filters
                    \<lparr> is_palindrome_filter = Some True, min_length = None, max_length = None,
                      word_count_filter = Some (Finite 1), contains_character = None \<rparr>
                    (map_values store))
                 (length (apply_filters
                    \<lparr> is_palindrome_filter = Some True, min_length = None, max_length = None,
                      word_count_filter = Some (Finite 1), contains_character = None \<rparr>
                    (map_values store)))
                 \<lparr> is_palindrome_filter = Some True, min_length = None, max_length = None,
                   word_count_filter = Some (Finite 1), contains_character = None \<rparr>)"
  (is "?general \<and> ?phrase \<and> ?query \<and> ?nl \<and> ?structured")
proof -
  have general: ?general
  proof
    assume "interpretQuery q = Some f"
    then have "max_length f = None" using interpretQuery_Some_fields [of q f] by blast
    then show "apply_parsed_filters f rs = apply_filters f rs" by (rule apply_parsed_filters_eq)
  qed
  have phrase: ?phrase by (rule interpretQuery_single_word_palindromic)
  have query: ?query by (rule validate_single_word_palindromic)
  have ne: "''single word palindromic strings'' \<noteq> []" by simp
  have nl: ?nl
    unfolding get_filter_by_natural_language_def phrase option.case if_not_P [OF ne] Let_def
    by (simp only: apply_parsed_filters_eq filter_set.select_convs)
  have structured: ?structured
    unfolding get_strings_def query prod.case Let_def by simp
  from general phrase query nl structured show ?thesis by blast
qed

theorem natural_language_equivalence_witness:
  "interpretQuery ''single word palindromic strings''
     = Some \<lparr> is_palindrome_filter = Some True, min_length = None, max_length = None,
              word_count_filter = Some (Finite 1), contains_character = None \<rparr>
   \<and> map value_field
       (apply_parsed_filters
          \<lparr> is_palindrome_filter = Some True, min_length = None, max_length = None,
            word_count_filter = Some (Finite 1), contains_character = None \<rparr>
          [analyzeString (\<lambda>s. s) ''t1'' ''Racecar'', analyzeString (\<lambda>s. s) ''t2'' ''hello'',
           analyzeString (\<lambda>s. s) ''t3'' ''nurses run''])
     = [''Racecar'']
   \<and> map value_field
       (apply_filters
          \<lparr> is_palindrome_filter = Some True, min_length = None, max_length = None,
            word_count_filter = Some (Finite 1), contains_character = None \<rparr>
          [analyzeString (\<lambda>s. s) ''t1'' ''Racecar'', analyzeString (\<lambda>s. s) ''t2'' ''hello'',
           analyzeString (\<lambda>s. s) ''t3'' ''nurses run''])
     = [''Racecar'']"
proof -
  let ?F = "\<lparr> is_palindrome_filter = Some True, min_length = None, max_length = None,
              word_count_filter = Some (Finite 1), contains_character = None \<rparr>"
  let ?rs = "[analyzeString (\<lambda>s. s) ''t1'' ''Racecar'', analyzeString (\<lambda>s. s) ''t2'' ''hello'',
              analyzeString (\<lambda>s. s) ''t3'' ''nurses run'']"
  note t = natural_language_equivalence [of "''single word palindromic strings''" ?F ?rs]
  from t have g: "interpretQuery ''single word palindromic strings'' = Some ?F
                    \<longrightarrow> apply_parsed_filters ?F ?rs = apply_filters ?F ?rs"
    by (rule conjunct1)
  from t have p: "interpretQuery ''single word palindromic strings'' = Some ?F"
    by (rule conjunct1 [OF conjunct2])
  from g p have eq: "apply_parsed_filters ?F ?rs = apply_filters ?F ?rs" by (rule mp)
  have v: "map value_field (apply_filters ?F ?rs) = [''Racecar'']"
    by code_simp
  show ?thesis unfolding eq using p v by blast
qed

section \<open>The character that interpretQuery extracts\<close>

lemma lower_char_not_upper: "\<not> is_upper (lower_char c)"
proof (cases "is_upper c")
  case True
  then have "(of_char c :: nat) + 32 < 256"
    by (auto simp: is_upper_def Let_def)
  then have "(of_char (char_of ((of_char c :: nat) + 32)) :: nat) = of_char c + 32"
    by simp
  with True show ?thesis
    by (auto simp: lower_char_def is_upper_def Let_def)
next
  case False
  then show ?thesis by (simp add: lower_char_def)
qed

lemma lower_char_idem: "lower_char (lower_char c) = lower_char c"
  using lower_char_not_upper [of c] by (simp add: lower_char_def)

lemma toLowerCase_idem: "toLowerCase (toLowerCase s) = toLowerCase s"
  by (simp add: toLowerCase_def lower_char_idem)

lemma regex_search_word_char:
  "regex_search lit word_char_group s = Some g \<Longrightarrow> \<exists>c. g = [c] \<and> is_word_char c \<and> c \<in> set s"
proof (induction s)
  case Nil
  then show ?case by simp
next
  case (Cons x xs)
  show ?case
  proof (cases "prefix lit (x # xs) \<and> word_char_group (drop (length lit) (x # xs)) \<noteq> None")
    case True
    with Cons.prems have w: "word_char_group (drop (length lit) (x # xs)) = Some g" by auto
    then obtain c cs where d: "drop (length lit) (x # xs) = c # cs" and c: "is_word_char c" "g = [c]"
      by (auto simp: word_char_group_def split: list.splits if_splits)
    from d have "c \<in> set (drop (length lit) (x # xs))" by simp
    then have "c \<in> set (x # xs)" by (rule in_set_dropD)
    with c show ?thesis by blast
  next
    case False
    with Cons.prems have "regex_search lit word_char_group xs = Some g"
      by (auto split: if_splits option.splits)
    with Cons.IH obtain c where "g = [c]" "is_word_char c" "c \<in> set xs" by blast
    then show ?thesis by auto
  qed
qed

lemma word_char_not_upper:
  "is_word_char c \<Longrightarrow> \<not> is_upper c \<Longrightarrow>
   is_digit c \<or> c = CHR ''_'' \<or> (97 \<le> (of_char c :: nat) \<and> (of_char c :: nat) \<le> 122)"
proof -
  assume w: "is_word_char c" and u: "\<not> is_upper c"
  have "c = CHR ''_''" if "(of_char c :: nat) = 95"
  proof -
    from that have "(of_char c :: nat) = of_char CHR ''_''" by simp
    then show ?thesis by (simp only: of_char_eq_iff)
  qed
  with w u show ?thesis by (auto simp: is_word_char_def is_upper_def is_digit_def Let_def)
qed

lemma interpretQuery_character:
  assumes "interpretQuery q = Some f" and "contains_character f = Some s"
  shows "\<exists>c. s = [c] \<and> is_word_char c \<and> \<not> is_upper c \<and> lower_char c = c
             \<and> c \<in> set (toLowerCase q)"
proof -
  from assms interpretQuery_Some_fields [of q f]
  have "regex_search ''containing the letter '' word_char_group (toLowerCase q) = Some s"
    by simp
  then obtain c where c: "s = [c]" "is_word_char c" "c \<in> set (toLowerCase q)"
    using regex_search_word_char by blast
  from c(3) obtain d where "c = lower_char d" by (auto simp: toLowerCase_def)
  then have "\<not> is_upper c" "lower_char c = c"
    by (simp_all add: lower_char_not_upper lower_char_idem)
  with c show ?thesis by blast
qed

lemma filter_contains_single:
  "contains_character f = Some [c] \<Longrightarrow>
   filter_contains_character f rs = filter (\<lambda>r. c \<in> set (value_field r)) rs"
  by (simp add: filter_contains_character_def includes_str_single)

lemma apply_parsed_filters_contains:
  "contains_character f = Some [c] \<Longrightarrow>
   list_all (\<lambda>r. c \<in> set (value_field r)) (apply_parsed_filters f rs)"
  by (simp add: apply_parsed_filters_def filter_contains_single list_all_iff)

lemma interpretQuery_letter_Z:
  "interpretQuery ''containing the letter Z''
     = Some \<lparr> is_palindrome_filter = None, min_length = None, max_length = None,
              word_count_filter = None, contains_character = Some ''z'' \<rparr>"
  by code_simp

text \<open>
  Claim C10. \<open>interpretQuery\<close> matches its patterns on the lower-cased phrase and takes
  \<open>contains_character\<close> from that text. Whenever it sets \<open>contains_character\<close>, the value is
  one character of the lower-cased phrase; it is a word character that \<open>toLowerCase\<close> leaves
  as it is, so a digit, the underscore or a letter from \<open>a\<close> to \<open>z\<close>, never an upper-case
  letter. The filtering that follows keeps exactly the records whose value contains that
  character as it is written, so every record the handler returns contains it. The
  phrase "containing the letter Z" yields \<open>contains_character = "z"\<close>.
\<close>

theorem contains_character_is_lower_case:
  "(interpretQuery q = Some f \<and> contains_character f = Some s \<longrightarrow>
      (\<exists>c. s = [c] \<and> c \<in> set (toLowerCase q) \<and> is_word_char c
            \<and> \<not> is_upper c \<and> lower_char c = c
            \<and> (is_digit c \<or> c = CHR ''_'' \<or> (97 \<le> (of_char c :: nat) \<and> (of_char c :: nat) \<le> 122))
            \<and> filter_contains_character f rs = filter (\<lambda>r. c \<in> set (value_field r)) rs
            \<and> list_all (\<lambda>r. c \<in> set (value_field r)) (apply_parsed_filters f rs)))
   \<and> interpretQuery ''containing the letter Z''
       = Some \<lparr> is_palindrome_filter = None, min_length = None, max_length = None,
                word_count_filter = None, contains_character = Some ''z'' \<rparr>"
proof -
  have "\<exists>c. s = [c] \<and> c \<in> set (toLowerCase q) \<and> is_word_char c
            \<and> \<not> is_upper c \<and> lower_char c = c
            \<and> (is_digit c \<or> c = CHR ''_'' \<or> (97 \<le> (of_char c :: nat) \<and> (of_char c :: nat) \<le> 122))
            \<and> filter_contains_character f rs = filter (\<lambda>r. c \<in> set (value_field r)) rs
            \<and> list_all (\<lambda>r. c \<in> set (value_field r)) (apply_parsed_filters f rs)"
    if i: "interpretQuery q = Some f" and s: "contains_character f = Some s"
  proof -
    from i s obtain c where c: "s = [c]" "is_word_char c" "\<not> is_upper c" "lower_char c = c"
      "c \<in> set (toLowerCase q)"
      using interpretQuery_character by blast
    from c(2,3) have r: "is_digit c \<or> c = CHR ''_''
        \<or> (97 \<le> (of_char c :: nat) \<and> (of_char c :: nat) \<le> 122)"
      by (rule word_char_not_upper)
    from s c(1) have k: "contains_character f = Some [c]" by simp
    from k have a: "filter_contains_character f rs = filter (\<lambda>r. c \<in> set (value_field r)) rs"
      by (rule filter_contains_single)
    from k have b: "list_all (\<lambda>r. c \<in> set (value_field r)) (apply_parsed_filters f rs)"
      by (rule apply_parsed_filters_contains)
    from c r a b show ?thesis by blast
  qed
  with interpretQuery_letter_Z show ?thesis by blast
qed

theorem contains_character_is_lower_case_witness:
  "interpretQuery ''containing the letter Z''
     = Some \<lparr> is_palindrome_filter = None, min_length = None, max_length = None,
              word_count_filter = None, contains_character = Some ''z'' \<rparr>
   \<and> list_all (\<lambda>r. CHR ''z'' \<in> set (value_field r))
       (apply_parsed_filters
          \<lparr> is_palindrome_filter = None, min_length = None, max_length = None,
            word_count_filter = None, contains_character = Some ''z'' \<rparr>
          [analyzeString (\<lambda>s. s) ''t1'' ''Zebra'', analyzeString (\<lambda>s. s) ''t2'' ''lazy''])
   \<and> map value_field
       (apply_parsed_filters
          \<lparr> is_palindrome_filter = None, min_length = None, max_length = None,
            word_count_filter = None, contains_character = Some ''z'' \<rparr>
          [analyzeString (\<lambda>s. s) ''t1'' ''Zebra'', analyzeString (\<lambda>s. s) ''t2'' ''lazy''])
     = [''lazy'']"
proof -
  let ?F = "\<lparr> is_palindrome_filter = None, min_length = None, max_length = None,
              word_count_filter = None, contains_character = Some ''z'' \<rparr>"
  let ?rs = "[analyzeString (\<lambda>s. s) ''t1'' ''Zebra'', analyzeString (\<lambda>s. s) ''t2'' ''lazy'']"
  note t = contains_character_is_lower_case [of "''containing the letter Z''" ?F "''z''" ?rs]
  from t have p: "interpretQuery ''containing the letter Z'' = Some ?F"
    by (rule conjunct2)
  have s: "contains_character ?F = Some ''z''" by simp
  from t p s obtain c where c: "''z'' = [c]"
    and l: "list_all (\<lambda>r. c \<in> set (value_field r)) (apply_parsed_filters ?F ?rs)"
    by blast
  from c have "c = CHR ''z''" by simp
  with l have a: "list_all (\<lambda>r. CHR ''z'' \<in> set (value_field r)) (apply_parsed_filters ?F ?rs)"
    by simp
  have v: "map value_field (apply_parsed_filters ?F ?rs) = [''lazy'']"
    by code_simp
  from p a v show ?thesis by blast
qed

section \<open>Numbers read from digits\<close>

lemma digit_in_radix_ten: "(digit_in_radix 10 c \<noteq> None) = is_digit c"
  by (auto simp: digit_in_radix_def is_digit_def Let_def)

lemma digit_not_space: "is_digit c \<Longrightarrow> \<not> is_space c"
  by (auto simp: is_digit_def is_space_def)

lemma digit_not_sign: "is_digit c \<Longrightarrow> c \<noteq> CHR ''+'' \<and> c \<noteq> CHR ''-'' \<and> c \<noteq> CHR ''x'' \<and> c \<noteq> CHR ''X''"
  by (auto simp: is_digit_def)

lemma value_in_radix_fold_nonneg:
  "0 \<le> acc \<Longrightarrow>
   0 \<le> foldl (\<lambda>n c. int R * n + (case digit_in_radix R c of None \<Rightarrow> 0 | Some k \<Rightarrow> int k)) acc z"
  by (induction z arbitrary: acc) (auto split: option.splits)

lemma value_in_radix_nonneg: "0 \<le> value_in_radix R z"
  by (simp add: value_in_radix_def value_in_radix_fold_nonneg)

lemma takeWhile_all: "list_all P xs \<Longrightarrow> takeWhile P xs = xs"
  by (induction xs) auto

lemma no_hex_prefix: "list_all is_digit g \<Longrightarrow> \<not> prefix ''0x'' g \<and> \<not> prefix ''0X'' g"
proof (cases g)
  case Nil
  then show ?thesis by simp
next
  case (Cons a as)
  assume d: "list_all is_digit g"
  show ?thesis
  proof (cases as)
    case Nil
    with Cons show ?thesis by simp
  next
    case (Cons b bs)
    with \<open>g = a # as\<close> d have "is_digit b" by simp
    then have "b \<noteq> CHR ''x''" "b \<noteq> CHR ''X''" using digit_not_sign by blast+
    with Cons \<open>g = a # as\<close> show ?thesis by simp
  qed
qed

lemma parseInt_digits:
  assumes "g \<noteq> []" and "list_all is_digit g"
  shows "parseInt g 0 = to_number (value_in_radix 10 g)"
proof -
  from assms obtain a as where g: "g = a # as" and a: "is_digit a" by (cases g) auto
  from a have t: "trimStart g = g" by (simp add: trimStart_def g digit_not_space)
  from a have s: "hd g \<noteq> CHR ''+''" "hd g \<noteq> CHR ''-''" using digit_not_sign by (simp_all add: g)
  from assms(2) have h: "\<not> prefix ''0x'' g" "\<not> prefix ''0X'' g" using no_hex_prefix by blast+
  have "(\<lambda>c. digit_in_radix 10 c \<noteq> None) = is_digit"
    by (rule ext) (rule digit_in_radix_ten)
  with assms(2) have w: "takeWhile (\<lambda>c. digit_in_radix 10 c \<noteq> None) g = g"
    by (simp only: takeWhile_all)
  show ?thesis
    unfolding parseInt_def t Let_def using s h assms(1) by (simp add: w del: not_None_eq)
qed

lemma to_number_small: "0 \<le> n \<Longrightarrow> n < 2 ^ 53 \<Longrightarrow> to_number n = Finite n"
proof -
  assume n: "0 \<le> n" "n < 2 ^ 53"
  have "(2 :: int) ^ 53 \<le> 2 ^ 1024" by (rule power_increasing) simp_all
  with n have "\<not> 2 ^ 1024 \<le> n" by linarith
  with n show ?thesis by (simp add: to_number_def round_to_double_def Let_def)
qed

lemma to_number_two_53: "to_number 9007199254740992 = Finite 9007199254740992"
  by code_simp

lemma add_one_small:
  assumes "0 \<le> n" and "n < 2 ^ 53"
  shows "add_one (Finite n) = Finite (n + 1)"
proof (cases "n + 1 < 2 ^ 53")
  case True
  with assms(1) show ?thesis by (simp add: add_one_def to_number_small)
next
  case False
  with assms(2) have "n + 1 = 9007199254740992" by simp
  then show ?thesis by (simp add: add_one_def to_number_two_53)
qed

lemma digits_group_takeWhile:
  "starts_with is_digit rest \<Longrightarrow>
   digits_group rest = Some (takeWhile is_digit rest) \<and> takeWhile is_digit rest \<noteq> []"
  by (cases rest) (simp_all add: starts_with_def digits_group_def Let_def)

lemma word_char_group_hd:
  "starts_with is_word_char rest \<Longrightarrow> word_char_group rest = Some [hd rest]"
  by (cases rest) (simp_all add: starts_with_def word_char_group_def)

lemma list_all_takeWhile: "list_all P (takeWhile P xs)"
  by (induction xs) auto

lemma first_match_has_match: "first_match lit cls s pre rest \<Longrightarrow> has_match lit cls s"
  unfolding first_match_def has_match_def by blast

lemma has_match_first_match:
  assumes "has_match lit cls s"
  shows "\<exists>pre rest. first_match lit cls s pre rest"
proof -
  let ?P = "\<lambda>n. \<exists>pre rest. s = pre @ lit @ rest \<and> starts_with cls rest \<and> length pre = n"
  from assms have "\<exists>n. ?P n" unfolding has_match_def by blast
  then obtain n where n: "?P n" and least: "\<And>m. ?P m \<Longrightarrow> n \<le> m"
    using exists_least_iff [of ?P] by (metis not_less)
  from n obtain pre rest where d: "s = pre @ lit @ rest" "starts_with cls rest" "length pre = n"
    by blast
  have "length pre \<le> length pre'" if "s = pre' @ lit @ rest' \<and> starts_with cls rest'"
    for pre' rest'
    using least [of "length pre'"] that d(3) by blast
  with d show ?thesis unfolding first_match_def by blast
qed

section \<open>The patterns of interpretQuery\<close>

lemma includes_str_contains_text: "includes_str s sub = contains_text sub s"
proof (induction s)
  case Nil
  show ?case by (auto simp: contains_text_def)
next
  case (Cons c cs)
  have "contains_text sub (c # cs) = (prefix sub (c # cs) \<or> contains_text sub cs)"
  proof
    assume "contains_text sub (c # cs)"
    then obtain pre post where d: "c # cs = pre @ sub @ post" by (auto simp: contains_text_def)
    show "prefix sub (c # cs) \<or> contains_text sub cs"
    proof (cases pre)
      case Nil
      with d have "c # cs = sub @ post" by simp
      then show ?thesis by (auto simp: prefix_def)
    next
      case (Cons a as)
      with d have "cs = as @ sub @ post" by simp
      then show ?thesis unfolding contains_text_def by blast
    qed
  next
    assume "prefix sub (c # cs) \<or> contains_text sub cs"
    then show "contains_text sub (c # cs)"
    proof
      assume "prefix sub (c # cs)"
      then obtain post where "c # cs = [] @ sub @ post" by (auto simp: prefix_def)
      then show ?thesis unfolding contains_text_def by blast
    next
      assume "contains_text sub cs"
      then obtain pre post where "cs = pre @ sub @ post" by (auto simp: contains_text_def)
      then have "c # cs = (c # pre) @ sub @ post" by simp
      then show ?thesis unfolding contains_text_def by blast
    qed
  qed
  with Cons.IH show ?case by simp
qed

lemma digit_in_radix_ten_value:
  "is_digit c \<Longrightarrow> digit_in_radix 10 c = Some (of_char c - 48)"
  by (auto simp: digit_in_radix_def is_digit_def Let_def)

lemma foldl_decimal:
  assumes step: "\<And>n c. is_digit c \<Longrightarrow> F n c = 10 * n + (int (of_char c) - 48)"
  shows "list_all is_digit ds \<Longrightarrow> foldl F acc ds = acc * 10 ^ length ds + decimal_value ds"
proof (induction ds arbitrary: acc)
  case Nil
  then show ?case by simp
next
  case (Cons c cs)
  then have c: "is_digit c" and cs: "list_all is_digit cs" by simp_all
  have "foldl F acc (c # cs) = foldl F (F acc c) cs" by simp
  also have "\<dots> = F acc c * 10 ^ length cs + decimal_value cs" by (rule Cons.IH [OF cs])
  also have "\<dots> = acc * 10 ^ length (c # cs) + decimal_value (c # cs)"
    by (simp add: step [OF c] algebra_simps)
  finally show ?case .
qed

lemma value_in_radix_decimal:
  assumes "list_all is_digit ds"
  shows "value_in_radix 10 ds = decimal_value ds"
proof -
  have "(int 10 * n + (case digit_in_radix 10 c of None \<Rightarrow> 0 | Some k \<Rightarrow> int k))
          = 10 * n + (int (of_char c) - 48)" if c: "is_digit c" for n c
  proof -
    from c have "48 \<le> (of_char c :: nat)" by (simp add: is_digit_def)
    then have "int ((of_char c :: nat) - 48) = int (of_char c) - 48" by simp
    then show ?thesis by (simp add: digit_in_radix_ten_value [OF c])
  qed
  from foldl_decimal [of "\<lambda>n c. int 10 * n + (case digit_in_radix 10 c of None \<Rightarrow> 0 | Some k \<Rightarrow> int k)",
      OF this assms, of 0]
  show ?thesis by (simp add: value_in_radix_def)
qed

lemma search_longer_than_None:
  "(regex_search ''longer than '' digits_group s = None) = (\<not> has_match ''longer than '' is_digit s)"
  by (rule regex_search_None) (simp, rule digits_group_starts)

lemma search_containing_None:
  "(regex_search ''containing the letter '' word_char_group s = None)
     = (\<not> has_match ''containing the letter '' is_word_char s)"
  by (rule regex_search_None) (simp, rule word_char_group_starts)

lemma search_longer_than_first:
  "first_match ''longer than '' is_digit s pre rest \<Longrightarrow>
   regex_search ''longer than '' digits_group s = Some (takeWhile is_digit rest)"
proof -
  assume m: "first_match ''longer than '' is_digit s pre rest"
  have "regex_search ''longer than '' digits_group s = digits_group rest"
    by (rule regex_search_first_match [OF _ _ m]) (simp, rule digits_group_starts)
  moreover from m have "starts_with is_digit rest" by (simp add: first_match_def)
  ultimately show ?thesis by (simp add: digits_group_takeWhile)
qed

lemma search_containing_first:
  "first_match ''containing the letter '' is_word_char s pre rest \<Longrightarrow>
   regex_search ''containing the letter '' word_char_group s = Some [hd rest]"
proof -
  assume m: "first_match ''containing the letter '' is_word_char s pre rest"
  have "regex_search ''containing the letter '' word_char_group s = word_char_group rest"
    by (rule regex_search_first_match [OF _ _ m]) (simp, rule word_char_group_starts)
  moreover from m have "starts_with is_word_char rest" by (simp add: first_match_def)
  ultimately show ?thesis by (simp add: word_char_group_hd)
qed

lemma longer_than_number:
  assumes "first_match ''longer than '' is_digit s pre rest"
  shows "map_option (\<lambda>g. add_one (parseInt g 0)) (regex_search ''longer than '' digits_group s)
           = Some (add_one (to_number (decimal_value (takeWhile is_digit rest))))"
proof -
  let ?g = "takeWhile is_digit rest"
  from assms have "starts_with is_digit rest" by (simp add: first_match_def)
  then have ne: "?g \<noteq> []" by (simp add: digits_group_takeWhile)
  have "parseInt ?g 0 = to_number (value_in_radix 10 ?g)"
    using ne list_all_takeWhile by (rule parseInt_digits)
  also have "\<dots> = to_number (decimal_value ?g)"
    by (simp only: value_in_radix_decimal [OF list_all_takeWhile])
  finally have "parseInt ?g 0 = to_number (decimal_value ?g)" .
  with search_longer_than_first [OF assms] show ?thesis by simp
qed

lemma decimal_value_nonneg: "list_all is_digit ds \<Longrightarrow> 0 \<le> decimal_value ds"
  using value_in_radix_nonneg [of 10 ds] by (simp add: value_in_radix_decimal)

lemma add_one_to_number_small:
  assumes "0 \<le> n" and "n < 2 ^ 53"
  shows "add_one (to_number n) = Finite (n + 1)"
  using assms by (simp add: to_number_small add_one_small)

lemma interpretQuery_lower: "interpretQuery (toLowerCase p) = interpretQuery p"
  unfolding interpretQuery_cases toLowerCase_idem ..

text \<open>
  Claim C5, as amended. \<open>interpretQuery\<close> depends on the lower-cased phrase only, and its
  four patterns are independent. It returns nothing exactly when the lower-cased phrase
  contains neither "palindromic" nor "single word" nor "one word", has no "longer than "
  followed by a digit and no "containing the letter " followed by a word character.
  Otherwise it returns a filter set in which \<open>is_palindrome\<close> is \<open>true\<close> exactly when
  "palindromic" occurs, \<open>word_count\<close> is 1 exactly when "single word" or "one word" occurs,
  \<open>max_length\<close> is absent, \<open>min_length\<close> is present exactly when "longer than " is somewhere
  followed by a digit, and \<open>contains_character\<close> is present exactly when "containing the
  letter " is somewhere followed by a word character. At the first such match of
  "longer than ", with \<open>N\<close> the decimal value of the digits that follow, \<open>min_length\<close> is what
  \<open>parseInt\<close> and \<open>+ 1\<close> compute: the double nearest to \<open>N\<close>, plus one, rounded to a double
  again; this is \<open>N + 1\<close> whenever \<open>N < 2^53\<close>. At the first such match of "containing the
  letter ", \<open>contains_character\<close> is the character that follows in the lower-cased phrase. A
  pattern that matches somewhere has a first match.
\<close>

theorem interpretQuery_patterns:
  "interpretQuery p = interpretQuery (toLowerCase p)
   \<and> (interpretQuery p = None)
       = (\<not> contains_text ''palindromic'' (toLowerCase p)
          \<and> \<not> contains_text ''single word'' (toLowerCase p)
          \<and> \<not> contains_text ''one word'' (toLowerCase p)
          \<and> \<not> has_match ''longer than '' is_digit (toLowerCase p)
          \<and> \<not> has_match ''containing the letter '' is_word_char (toLowerCase p))
   \<and> (interpretQuery p = Some f \<longrightarrow>
        is_palindrome_filter f
          = (if contains_text ''palindromic'' (toLowerCase p) then Some True else None)
      \<and> word_count_filter f
          = (if contains_text ''single word'' (toLowerCase p)
                \<or> contains_text ''one word'' (toLowerCase p)
             then Some (Finite 1) else None)
      \<and> max_length f = None
      \<and> (min_length f = None) = (\<not> has_match ''longer than '' is_digit (toLowerCase p))
      \<and> (contains_character f = None)
          = (\<not> has_match ''containing the letter '' is_word_char (toLowerCase p))
      \<and> (first_match ''longer than '' is_digit (toLowerCase p) pre rest \<longrightarrow>
           min_length f = Some (add_one (to_number (decimal_value (takeWhile is_digit rest))))
         \<and> (decimal_value (takeWhile is_digit rest) < 2 ^ 53 \<longrightarrow>
              min_length f = Some (Finite (decimal_value (takeWhile is_digit rest) + 1))))
      \<and> (first_match ''containing the letter '' is_word_char (toLowerCase p) pre' rest' \<longrightarrow>
           contains_character f = Some [hd rest']))
   \<and> has_match lit cls s = (\<exists>pre rest. first_match lit cls s pre rest)"
  (is "?lower \<and> ?none \<and> (?some \<longrightarrow> ?fields) \<and> ?first")
proof -
  have lower: ?lower by (simp only: interpretQuery_lower)
  have none: ?none
    unfolding interpretQuery_None_iff search_longer_than_None search_containing_None
      includes_str_contains_text ..
  have fields: ?fields if i: ?some
  proof -
    note fs = interpretQuery_Some_fields [OF i, unfolded includes_str_contains_text]
    from fs have pal: "is_palindrome_filter f
          = (if contains_text ''palindromic'' (toLowerCase p) then Some True else None)"
      by blast
    from fs have wc: "word_count_filter f
          = (if contains_text ''single word'' (toLowerCase p)
                \<or> contains_text ''one word'' (toLowerCase p)
             then Some (Finite 1) else None)"
      by blast
    from fs have mx: "max_length f = None" by blast
    from fs have mn: "min_length f
       = map_option (\<lambda>g. add_one (parseInt g 0))
           (regex_search ''longer than '' digits_group (toLowerCase p))"
      by blast
    from fs have cc: "contains_character f
       = regex_search ''containing the letter '' word_char_group (toLowerCase p)"
      by blast
    have mn_none: "(min_length f = None) = (\<not> has_match ''longer than '' is_digit (toLowerCase p))"
      unfolding mn option.map_disc_iff by (rule search_longer_than_None)
    have cc_none: "(contains_character f = None)
          = (\<not> has_match ''containing the letter '' is_word_char (toLowerCase p))"
      unfolding cc by (rule search_containing_None)
    have mn_val: "min_length f = Some (add_one (to_number (decimal_value (takeWhile is_digit rest))))
         \<and> (decimal_value (takeWhile is_digit rest) < 2 ^ 53 \<longrightarrow>
              min_length f = Some (Finite (decimal_value (takeWhile is_digit rest) + 1)))"
      if h: "first_match ''longer than '' is_digit (toLowerCase p) pre rest"
    proof -
      have v: "min_length f = Some (add_one (to_number (decimal_value (takeWhile is_digit rest))))"
        unfolding mn using longer_than_number [OF h] .
      have "add_one (to_number (decimal_value (takeWhile is_digit rest)))
              = Finite (decimal_value (takeWhile is_digit rest) + 1)"
        if "decimal_value (takeWhile is_digit rest) < 2 ^ 53"
        using decimal_value_nonneg [OF list_all_takeWhile] that by (rule add_one_to_number_small)
      with v show ?thesis by simp
    qed
    have cc_val: "contains_character f = Some [hd rest']"
      if "first_match ''containing the letter '' is_word_char (toLowerCase p) pre' rest'"
      unfolding cc using that by (rule search_containing_first)
    from pal wc mx mn_none cc_none mn_val cc_val show ?thesis by blast
  qed
  have first: ?first
    using has_match_first_match [of lit cls s] first_match_has_match [of lit cls s] by blast
  from lower none fields first show ?thesis by blast
qed

theorem interpretQuery_patterns_witness:
  "first_match ''longer than '' is_digit (toLowerCase ''LONGER than 10 characters'') [] ''10 characters''
   \<and> decimal_value (takeWhile is_digit ''10 characters'') = 10
   \<and> interpretQuery ''LONGER than 10 characters''
       = Some \<lparr> is_palindrome_filter = None, min_length = Some (Finite 11), max_length = None,
                word_count_filter = None, contains_character = None \<rparr>
   \<and> min_length \<lparr> is_palindrome_filter = None, min_length = Some (Finite 11), max_length = None,
                  word_count_filter = None, contains_character = None \<rparr>
       = Some (Finite (decimal_value (takeWhile is_digit ''10 characters'') + 1))
   \<and> first_match ''containing the letter '' is_word_char
        (toLowerCase ''Containing The Letter Q'') [] ''q''
   \<and> interpretQuery ''Containing The Letter Q''
       = Some \<lparr> is_palindrome_filter = None, min_length = None, max_length = None,
                word_count_filter = None, contains_character = Some ''q'' \<rparr>
   \<and> contains_character \<lparr> is_palindrome_filter = None, min_length = None, max_length = None,
                word_count_filter = None, contains_character = Some ''q'' \<rparr> = Some [hd ''q'']
   \<and> contains_text ''palindromic'' (toLowerCase ''One Word PALINDROMIC strings'')
   \<and> contains_text ''one word'' (toLowerCase ''One Word PALINDROMIC strings'')
   \<and> interpretQuery ''One Word PALINDROMIC strings''
       = Some \<lparr> is_palindrome_filter = Some True, min_length = None, max_length = None,
                word_count_filter = Some (Finite 1), contains_character = None \<rparr>
   \<and> is_palindrome_filter
        \<lparr> is_palindrome_filter = Some True, min_length = None, max_length = None,
          word_count_filter = Some (Finite 1), contains_character = None \<rparr>
       = (if contains_text ''palindromic'' (toLowerCase ''One Word PALINDROMIC strings'')
          then Some True else None)
   \<and> word_count_filter
        \<lparr> is_palindrome_filter = Some True, min_length = None, max_length = None,
          word_count_filter = Some (Finite 1), contains_character = None \<rparr>
       = (if contains_text ''single word'' (toLowerCase ''One Word PALINDROMIC strings'')
             \<or> contains_text ''one word'' (toLowerCase ''One Word PALINDROMIC strings'')
          then Some (Finite 1) else None)
   \<and> interpretQuery ''banana'' = None"
proof -
  let ?F = "\<lparr> is_palindrome_filter = None, min_length = Some (Finite 11), max_length = None,
              word_count_filter = None, contains_character = None \<rparr>"
  let ?G = "\<lparr> is_palindrome_filter = None, min_length = None, max_length = None,
              word_count_filter = None, contains_character = Some ''q'' \<rparr>"
  let ?H = "\<lparr> is_palindrome_filter = Some True, min_length = None, max_length = None,
              word_count_filter = Some (Finite 1), contains_character = None \<rparr>"
  have l1: "toLowerCase ''LONGER than 10 characters'' = ''longer than 10 characters''"
    by code_simp
  have l2: "toLowerCase ''Containing The Letter Q'' = ''containing the letter q''"
    by code_simp
  have l3: "toLowerCase ''One Word PALINDROMIC strings'' = ''one word palindromic strings''"
    by code_simp
  have m1: "first_match ''longer than '' is_digit (toLowerCase ''LONGER than 10 characters'') []
              ''10 characters''"
    unfolding l1 by (simp add: first_match_def starts_with_def is_digit_def)
  have v1: "decimal_value (takeWhile is_digit ''10 characters'') = 10"
    by code_simp
  then have v1': "decimal_value (takeWhile is_digit ''10 characters'') < 2 ^ 53"
    by simp
  have i1: "interpretQuery ''LONGER than 10 characters'' = Some ?F"
    by code_simp
  have m2: "first_match ''containing the letter '' is_word_char
              (toLowerCase ''Containing The Letter Q'') [] ''q''"
    unfolding l2 by (simp add: first_match_def starts_with_def is_word_char_def)
  have i2: "interpretQuery ''Containing The Letter Q'' = Some ?G"
    by code_simp
  have c1: "contains_text ''palindromic'' (toLowerCase ''One Word PALINDROMIC strings'')"
    unfolding l3 contains_text_def
    by (rule exI [of _ "''one word ''"], rule exI [of _ "'' strings''"]) simp
  have c2: "contains_text ''one word'' (toLowerCase ''One Word PALINDROMIC strings'')"
    unfolding l3 contains_text_def
    by (rule exI [of _ "[]"], rule exI [of _ "'' palindromic strings''"]) simp
  have i3: "interpretQuery ''One Word PALINDROMIC strings'' = Some ?H"
    by code_simp
  have n: "interpretQuery ''banana'' = None"
    by code_simp
  from m1 v1' i1
    interpretQuery_patterns [of "''LONGER than 10 characters''" ?F "[]" "''10 characters''"]
  have a: "min_length ?F
             = Some (Finite (decimal_value (takeWhile is_digit ''10 characters'') + 1))"
    by blast
  from m2 i2
    interpretQuery_patterns [where p = "''Containing The Letter Q''" and f = ?G
      and pre' = "[]" and rest' = "''q''"]
  have b: "contains_character ?G = Some [hd ''q'']"
    by blast
  from i3 interpretQuery_patterns [where p = "''One Word PALINDROMIC strings''" and f = ?H]
  have d: "is_palindrome_filter ?H
       = (if contains_text ''palindromic'' (toLowerCase ''One Word PALINDROMIC strings'')
          then Some True else None)"
    and e: "word_count_filter ?H
       = (if contains_text ''single word'' (toLowerCase ''One Word PALINDROMIC strings'')
             \<or> contains_text ''one word'' (toLowerCase ''One Word PALINDROMIC strings'')
          then Some (Finite 1) else None)"
    by blast+
  from m1 v1 i1 a m2 i2 b c1 c2 i3 d e n show ?thesis by blast
qed

text \<open>
  Claim C5 as it is written asks for \<open>min_length = N + 1\<close> for every decimal \<open>N\<close>. The
  numbers of the program are doubles: for \<open>N = 2^53\<close> the sum \<open>N + 1\<close> is not a double and
  rounds back to \<open>N\<close>.
\<close>

theorem interpretQuery_longer_than_counterexample:
  "interpretQuery ''longer than 9007199254740992''
     = Some \<lparr> is_palindrome_filter = None, min_length = Some (Finite 9007199254740992),
              max_length = None, word_count_filter = None, contains_character = None \<rparr>
   \<and> interpretQuery ''longer than 9007199254740992''
     \<noteq> Some \<lparr> is_palindrome_filter = None, min_length = Some (Finite (9007199254740992 + 1)),
              max_length = None, word_count_filter = None, contains_character = None \<rparr>"
proof -
  have e: "interpretQuery ''longer than 9007199254740992''
     = Some \<lparr> is_palindrome_filter = None, min_length = Some (Finite 9007199254740992),
              max_length = None, word_count_filter = None, contains_character = None \<rparr>"
    by code_simp
  show ?thesis unfolding e by simp
qed

section \<open>Validation\<close>

lemma validate_is_palindrome_errors:
  "snd (validate_is_palindrome msg q (f, e)) = e @ palindrome_errors msg q"
  by (simp add: validate_is_palindrome_def palindrome_errors_def split: option.splits)

lemma validate_min_length_errors:
  "snd (validate_min_length msg q (f, e))
     = e @ number_errors (min_length_message msg) (min_length_param q)"
  by (simp add: validate_min_length_def number_errors_def Let_def split: option.splits)

lemma validate_max_length_errors:
  "snd (validate_max_length msg q (f, e))
     = e @ number_errors (max_length_message msg) (max_length_param q)"
  by (simp add: validate_max_length_def number_errors_def Let_def split: option.splits)

lemma validate_word_count_errors:
  "snd (validate_word_count msg q (f, e))
     = e @ number_errors (word_count_message msg) (word_count_param q)"
  by (simp add: validate_word_count_def number_errors_def Let_def split: option.splits)

lemma validate_contains_character_errors:
  "snd (validate_contains_character msg q (f, e)) = e @ character_errors msg q"
  by (simp add: validate_contains_character_def character_errors_def split: option.splits)

lemma validate_conflict_errors:
  "validate_conflict msg (f, e) = (f, e @ conflict_errors msg f)"
  by (simp add: validate_conflict_def conflict_errors_def split: option.splits)

lemma pair_collapse: "(fst st, snd st) = st"
  by simp

lemma validate_collects:
  "snd (validate msg q)
     = palindrome_errors msg q
       @ number_errors (min_length_message msg) (min_length_param q)
       @ number_errors (max_length_message msg) (max_length_param q)
       @ number_errors (word_count_message msg) (word_count_param q)
       @ character_errors msg q
       @ conflict_errors msg (fst (validate msg q))"
proof -
  let ?s1 = "validate_is_palindrome msg q (no_filters, [])"
  let ?s2 = "validate_min_length msg q ?s1"
  let ?s3 = "validate_max_length msg q ?s2"
  let ?s4 = "validate_word_count msg q ?s3"
  let ?s5 = "validate_contains_character msg q ?s4"
  have e1: "snd ?s1 = palindrome_errors msg q"
    by (simp add: validate_is_palindrome_errors)
  have e2: "snd ?s2 = snd ?s1 @ number_errors (min_length_message msg) (min_length_param q)"
    using validate_min_length_errors [of msg q "fst ?s1" "snd ?s1"] by (simp only: pair_collapse)
  have e3: "snd ?s3 = snd ?s2 @ number_errors (max_length_message msg) (max_length_param q)"
    using validate_max_length_errors [of msg q "fst ?s2" "snd ?s2"] by (simp only: pair_collapse)
  have e4: "snd ?s4 = snd ?s3 @ number_errors (word_count_message msg) (word_count_param q)"
    using validate_word_count_errors [of msg q "fst ?s3" "snd ?s3"] by (simp only: pair_collapse)
  have e5: "snd ?s5 = snd ?s4 @ character_errors msg q"
    using validate_contains_character_errors [of msg q "fst ?s4" "snd ?s4"]
    by (simp only: pair_collapse)
  have v: "validate msg q = (fst ?s5, snd ?s5 @ conflict_errors msg (fst ?s5))"
    unfolding validate_def
    using validate_conflict_errors [of msg "fst ?s5" "snd ?s5"] by (simp only: pair_collapse)
  then have "snd (validate msg q) = snd ?s5 @ conflict_errors msg (fst (validate msg q))"
    by simp
  then show ?thesis by (simp only: e1 e2 e3 e4 e5 append_assoc)
qed

lemma get_strings_rejects:
  "snd (validate messages_v1 q) \<noteq> [] \<Longrightarrow>
   get_strings store q = (400, ErrorDetailsBody ''Bad Request'' (snd (validate messages_v1 q)))"
  by (cases "validate messages_v1 q") (auto simp: get_strings_def Let_def)

lemma get_strings_accepts:
  "snd (validate messages_v1 q) = [] \<Longrightarrow>
   get_strings store q
     = (200, ListBody (apply_filters (fst (validate messages_v1 q)) (map_values store))
               (length (apply_filters (fst (validate messages_v1 q)) (map_values store)))
               (fst (validate messages_v1 q)))"
  by (cases "validate messages_v1 q") (auto simp: get_strings_def Let_def)

lemma validate_maybe_minus_one:
  "validate messages_v1
     \<lparr> is_palindrome_param = Some ''maybe'', min_length_param = Some ''-1'',
       max_length_param = None, word_count_param = None, contains_character_param = None \<rparr>
     = (no_filters, [palindrome_message messages_v1, min_length_message messages_v1])"
  by code_simp

section \<open>The second variant of GET /strings\<close>

lemma dropWhile_keeps_last: "\<not> P c \<Longrightarrow> \<exists>ys. dropWhile P (xs @ [c]) = ys @ [c]"
  by (induction xs) auto

lemma trim_keeps_head: "\<not> is_space c \<Longrightarrow> \<exists>t. trim (c # cs) = c # t"
proof -
  assume c: "\<not> is_space c"
  then obtain ys where "dropWhile is_space (rev cs @ [c]) = ys @ [c]"
    using dropWhile_keeps_last [of is_space c "rev cs"] by blast
  with c have "trim (c # cs) = c # rev ys" by (simp add: trim_def)
  then show ?thesis by blast
qed

lemma decimal_literal_letter:
  assumes "\<not> is_digit c" "c \<noteq> CHR ''+''" "c \<noteq> CHR ''-''" "c \<noteq> CHR ''.''" "c \<noteq> CHR ''I''"
  shows "\<not> decimal_literal_positive (c # t)"
  unfolding decimal_literal_positive_def Let_def
  using assms
  by (simp only: list.sel list.distinct list.inject simp_thms if_False if_True
      takeWhile.simps dropWhile.simps not_False_eq_True)

lemma string_gt_zero_letter:
  assumes "\<not> is_space c" "\<not> is_digit c" "c \<noteq> CHR ''+''" "c \<noteq> CHR ''-''" "c \<noteq> CHR ''.''"
    "c \<noteq> CHR ''I''"
  shows "\<not> string_gt_zero (c # cs)"
proof -
  from assms(1) obtain t where t: "trim (c # cs) = c # t"
    using trim_keeps_head [of c cs] by blast
  from assms(2) have z: "CHR ''0'' \<noteq> c" by (auto simp: is_digit_def)
  then have p: "\<not> prefix (CHR ''0'' # x) (c # t)" for x by simp
  from assms(2-) have d: "\<not> decimal_literal_positive (c # t)" by (rule decimal_literal_letter)
  show ?thesis
    unfolding string_gt_zero_def t Let_def
    by (simp only: p d simp_thms if_False)
qed

lemma string_gt_zero_empty: "\<not> string_gt_zero []"
  by code_simp

lemma starts_a_message_not_numeric:
  "starts_a_message c \<Longrightarrow>
   \<not> is_space c \<and> \<not> is_digit c \<and> c \<noteq> CHR ''+'' \<and> c \<noteq> CHR ''-'' \<and> c \<noteq> CHR ''.'' \<and> c \<noteq> CHR ''I''"
  by (auto simp: starts_a_message_def is_space_def is_digit_def)

lemma array_gt_zero_messages:
  assumes "list_all (starts_with starts_a_message) errors"
  shows "\<not> array_gt_zero errors"
proof (cases errors)
  case Nil
  then show ?thesis by (simp add: array_gt_zero_def string_gt_zero_empty)
next
  case (Cons e es)
  with assms obtain c cs where e: "e = c # cs" and c: "starts_a_message c"
    by (cases e) (auto simp: starts_with_def)
  have "\<exists>r. join_comma (e # es) = c # r"
    by (cases es) (simp_all add: e)
  then obtain r where "join_comma errors = c # r" using Cons by blast
  with starts_a_message_not_numeric [OF c] show ?thesis
    by (simp add: array_gt_zero_def string_gt_zero_letter)
qed

lemma messages_v2_start:
  "starts_with starts_a_message (palindrome_message messages_v2)"
  "starts_with starts_a_message (min_length_message messages_v2)"
  "starts_with starts_a_message (max_length_message messages_v2)"
  "starts_with starts_a_message (word_count_message messages_v2)"
  "starts_with starts_a_message (contains_character_message messages_v2)"
  "starts_with starts_a_message (conflict_message messages_v2)"
  by (simp_all add: messages_v2_def starts_with_def starts_a_message_def)

lemma validate_v2_messages:
  "list_all (starts_with starts_a_message) (snd (validate messages_v2 q))"
  unfolding validate_collects
  by (simp add: palindrome_errors_def number_errors_def character_errors_def conflict_errors_def
      messages_v2_start split: option.splits)

lemma get_strings_v2_always_lists:
  "get_strings_v2 store q
     = (200, ListBody (apply_filters (fst (validate messages_v2 q)) (map_values store))
               (length (apply_filters (fst (validate messages_v2 q)) (map_values store)))
               (fst (validate messages_v2 q)))"
  using array_gt_zero_messages [OF validate_v2_messages, of q]
  by (cases "validate messages_v2 q") (auto simp: get_strings_v2_def Let_def)

text \<open>
  Claim C2 holds for the first variant of \<open>GET /strings\<close> (\<open>validate_collects\<close>,
  \<open>get_strings_rejects\<close>, \<open>get_strings_accepts\<close>). The second variant tests \<open>errors > 0\<close>,
  which is false for every list of messages, so it never answers 400
  (\<open>get_strings_v2_always_lists\<close>). For the query \<open>is_palindrome=maybe&min_length=-1\<close> both
  variants collect two messages; the first answers 400 with the two, the second answers
  200 with every record of the store and no filter applied.
\<close>

theorem get_strings_v2_ignores_errors:
  "validate messages_v2
     \<lparr> is_palindrome_param = Some ''maybe'', min_length_param = Some ''-1'',
       max_length_param = None, word_count_param = None, contains_character_param = None \<rparr>
     = (no_filters, [''is_palindrome must be true or false'',
                     ''Minlength must not be a negative number''])
   \<and> get_strings_v2
       [(''abc'', analyzeString_v2 (\<lambda>s. s) ''t1'' ''abc'')]
       \<lparr> is_palindrome_param = Some ''maybe'', min_length_param = Some ''-1'',
         max_length_param = None, word_count_param = None, contains_character_param = None \<rparr>
     = (200, ListBody [analyzeString_v2 (\<lambda>s. s) ''t1'' ''abc''] 1 no_filters)
   \<and> get_strings
       [(''abc'', analyzeString (\<lambda>s. s) ''t1'' ''abc'')]
       \<lparr> is_palindrome_param = Some ''maybe'', min_length_param = Some ''-1'',
         max_length_param = None, word_count_param = None, contains_character_param = None \<rparr>
     = (400, ErrorDetailsBody ''Bad Request''
               [palindrome_message messages_v1, min_length_message messages_v1])"
proof -
  let ?q = "\<lparr> is_palindrome_param = Some ''maybe'', min_length_param = Some ''-1'',
       max_length_param = None, word_count_param = None, contains_character_param = None \<rparr>"
  have v2: "validate messages_v2 ?q
     = (no_filters, [''is_palindrome must be true or false'',
                     ''Minlength must not be a negative number''])"
    by code_simp
  have g2: "get_strings_v2 [(''abc'', analyzeString_v2 (\<lambda>s. s) ''t1'' ''abc'')] ?q
     = (200, ListBody [analyzeString_v2 (\<lambda>s. s) ''t1'' ''abc''] 1 no_filters)"
    unfolding get_strings_v2_always_lists v2
    by (simp add: apply_filters_no_filters map_values_def)
  have g1: "get_strings [(''abc'', analyzeString (\<lambda>s. s) ''t1'' ''abc'')] ?q
     = (400, ErrorDetailsBody ''Bad Request''
               [palindrome_message messages_v1, min_length_message messages_v1])"
    using get_strings_rejects [of ?q "[(''abc'', analyzeString (\<lambda>s. s) ''t1'' ''abc'')]"]
    unfolding validate_maybe_minus_one by simp
  from v2 g2 g1 show ?thesis by blast
qed

end
